theory Spec2Isabelle
  imports Main
begin

section \<open>Native environment discovery: data model\<close>

text \<open>
  The raw records sent by the discovery worker (\<^verbatim>\<open>nativePythonFinder.ts\<close>) and the
  normalized descriptors kept by \<^verbatim>\<open>NativePythonEnvironments\<close>. An optional field
  \<^verbatim>\<open>f?: string\<close> is a \<open>string option\<close>: \<open>None\<close> is \<^verbatim>\<open>undefined\<close>. JavaScript tests
  such fields in two ways, and the model keeps both: \<^verbatim>\<open>f === undefined\<close> and \<^verbatim>\<open>f ?? d\<close>
  look at \<open>None\<close> only, whereas \<^verbatim>\<open>if (f)\<close> and \<^verbatim>\<open>!f\<close> also take the empty string for
  false (\<open>truthy\<close>).
\<close>

datatype PythonEnvironmentKind =
    Conda | Homebrew | Pyenv | GlobalPaths | PyenvVirtualEnv | Pipenv | Poetry
  | MacPythonOrg | MacCommandLineTools | LinuxGlobal | MacXCode | Venv | VirtualEnv
  | VirtualEnvWrapper | WindowsStore | WindowsRegistry

text \<open>
  \<^verbatim>\<open>PythonEnvKind\<close>, \<^verbatim>\<open>PythonEnvType\<close> and \<^verbatim>\<open>Architecture\<close> are declared in modules that
  are not part of the sources at hand; their members are the ones the \<^verbatim>\<open>switch\<close>
  statements of \<^verbatim>\<open>kindToShortString\<close>, \<^verbatim>\<open>getEnvType\<close> and \<^verbatim>\<open>toArch\<close> enumerate.
\<close>

datatype PythonEnvKind =
    KindPoetry | KindPyenv | KindVirtualEnv | KindVenv | KindVirtualEnvWrapper
  | KindOtherVirtual | KindPipenv | KindConda | KindActiveState | KindMicrosoftStore
  | KindHatch | KindPixi | KindSystem | KindUnknown | KindOtherGlobal | KindCustom

datatype PythonEnvType = TypeVirtual | TypeConda

datatype Architecture = ArchUnknown | Arch_x86 | Arch_x64

record NativeEnvManagerInfo =
  tool :: string
  manager_executable :: string
  manager_version :: "string option"

record NativeEnvInfo =
  displayName :: "string option"
  name :: "string option"
  executable :: "string option"
  kind :: "PythonEnvironmentKind option"
  version :: "string option"
  prefix :: "string option"
  manager :: "NativeEnvManagerInfo option"
  project :: "string option"
  arch :: "string option"
  symlinks :: "string list option"

record PythonVersion =
  major :: int
  minor :: int
  micro :: int

record PythonExecutableInfo =
  filename :: string
  sysPrefix :: string
  ctime :: int
  mtime :: int

record PythonVersionInfo =
  sysVersion :: "string option"
  version_major :: int
  version_minor :: int
  version_micro :: int

record PythonEnvInfo =
  info_name :: string
  info_location :: string
  info_kind :: PythonEnvKind
  info_executable :: PythonExecutableInfo
  info_version :: PythonVersionInfo
  info_arch :: Architecture
  info_distro_org :: string
  info_source :: "string list"
  info_detailedDisplayName :: string
  info_display :: string
  info_type :: "PythonEnvType option"

text \<open>
  What the module takes from its host: \<^verbatim>\<open>process.platform === 'win32'\<close>, Node's
  \<^verbatim>\<open>path.join\<close> and \<^verbatim>\<open>path.basename\<close>, and \<^verbatim>\<open>parseVersion\<close> of
  \<^verbatim>\<open>base/info/pythonVersion\<close>, whose source is not at hand. They are parameters of the
  model; nothing below depends on what they compute.
\<close>

record host =
  win32 :: bool
  path_join :: "string \<Rightarrow> string \<Rightarrow> string"
  path_basename :: "string \<Rightarrow> string"
  parseVersion :: "string \<Rightarrow> PythonVersion"

definition truthy :: "string option \<Rightarrow> bool" where
  "truthy v = (case v of None \<Rightarrow> False | Some s \<Rightarrow> s \<noteq> [])"

section \<open>Record normalizer\<close>

definition mapping :: "(PythonEnvironmentKind \<times> PythonEnvKind) list" where
  "mapping =
    [(Conda, KindConda),
     (GlobalPaths, KindOtherGlobal),
     (Pyenv, KindPyenv),
     (PyenvVirtualEnv, KindPyenv),
     (Pipenv, KindPipenv),
     (Poetry, KindPoetry),
     (VirtualEnv, KindVirtualEnv),
     (VirtualEnvWrapper, KindVirtualEnvWrapper),
     (Venv, KindVenv),
     (WindowsRegistry, KindSystem),
     (WindowsStore, KindMicrosoftStore),
     (Homebrew, KindSystem),
     (LinuxGlobal, KindSystem),
     (MacCommandLineTools, KindSystem),
     (MacPythonOrg, KindSystem),
     (MacXCode, KindSystem)]"

definition categoryToKind :: "PythonEnvironmentKind option \<Rightarrow> PythonEnvKind" where
  "categoryToKind category =
    (case category of
       None \<Rightarrow> KindUnknown
     | Some c \<Rightarrow> (case map_of mapping c of Some k \<Rightarrow> k | None \<Rightarrow> KindUnknown))"

definition makeExecutablePath :: "host \<Rightarrow> string option \<Rightarrow> string" where
  "makeExecutablePath h p =
    (if \<not> truthy p then (if win32 h then ''python.exe'' else ''python'')
     else (if win32 h then path_join h (the p) ''python.exe''
           else path_join h (the p) ''python''))"

definition toArch :: "string option \<Rightarrow> Architecture" where
  "toArch a =
    (if a = Some ''x86'' then Arch_x86
     else if a = Some ''x64'' then Arch_x64
     else ArchUnknown)"

definition getLocation :: "NativeEnvInfo \<Rightarrow> string" where
  "getLocation nativeEnv =
    (if truthy (prefix nativeEnv) then the (prefix nativeEnv)
     else if truthy (executable nativeEnv) then the (executable nativeEnv)
     else [])"

fun kindToShortString :: "PythonEnvKind \<Rightarrow> string option" where
  "kindToShortString KindPoetry = Some ''poetry''"
| "kindToShortString KindPyenv = Some ''pyenv''"
| "kindToShortString KindVirtualEnv = Some ''venv''"
| "kindToShortString KindVenv = Some ''venv''"
| "kindToShortString KindVirtualEnvWrapper = Some ''venv''"
| "kindToShortString KindOtherVirtual = Some ''venv''"
| "kindToShortString KindPipenv = Some ''pipenv''"
| "kindToShortString KindConda = Some ''conda''"
| "kindToShortString KindActiveState = Some ''active-state''"
| "kindToShortString KindMicrosoftStore = Some ''Microsoft Store''"
| "kindToShortString KindHatch = Some ''hatch''"
| "kindToShortString KindPixi = Some ''pixi''"
| "kindToShortString _ = None"

text \<open>A number in a template literal: decimal digits, with a sign when negative.\<close>

fun string_of_nat :: "nat \<Rightarrow> string" where
  "string_of_nat n =
    (if n < 10 then [''0123456789'' ! n]
     else string_of_nat (n div 10) @ [''0123456789'' ! (n mod 10)])"

declare string_of_nat.simps [simp del]

definition string_of_int :: "int \<Rightarrow> string" where
  "string_of_int i = (if i < 0 then CHR ''-'' # string_of_nat (nat (- i)) else string_of_nat (nat i))"

definition is_space :: "char \<Rightarrow> bool" where
  "is_space c = (c \<in> set [CHR '' '', CHR 0x09, CHR 0x0A, CHR 0x0B, CHR 0x0C, CHR 0x0D])"

definition trim :: "string \<Rightarrow> string" where
  "trim s = rev (dropWhile is_space (rev (dropWhile is_space s)))"

definition toShortVersionString :: "PythonVersion \<Rightarrow> string" where
  "toShortVersionString v =
    trim (string_of_int (major v) @ ''.'' @ string_of_int (minor v) @ ''.'' @ string_of_int (micro v))"

definition quoted_name :: "string \<Rightarrow> string" where
  "quoted_name n = ''('' @ [CHR 0x27] @ n @ [CHR 0x27] @ '')''"

definition getDisplayName :: "PythonVersion \<Rightarrow> PythonEnvKind \<Rightarrow> Architecture \<Rightarrow> string \<Rightarrow> string" where
  "getDisplayName v k a n =
    (let versionStr = toShortVersionString v; kindStr = kindToShortString k in
     if a = Arch_x86 then
       (case kindStr of
          Some ks \<Rightarrow>
            (if n \<noteq> [] then ''Python '' @ versionStr @ '' 32-bit '' @ quoted_name n
             else ''Python '' @ versionStr @ '' 32-bit ('' @ ks @ '')'')
        | None \<Rightarrow>
            (if n \<noteq> [] then ''Python '' @ versionStr @ '' 32-bit '' @ quoted_name n
             else ''Python '' @ versionStr @ '' 32-bit''))
     else
       (case kindStr of
          Some ks \<Rightarrow>
            (if n \<noteq> [] then ''Python '' @ versionStr @ '' '' @ quoted_name n
             else ''Python '' @ versionStr @ '' ('' @ ks @ '')'')
        | None \<Rightarrow>
            (if n \<noteq> [] then ''Python '' @ versionStr @ '' '' @ quoted_name n
             else ''Python '' @ versionStr)))"

definition validEnv :: "NativeEnvInfo \<Rightarrow> bool" where
  "validEnv nativeEnv =
    (if prefix nativeEnv = None \<and> executable nativeEnv = None then False else True)"

fun getEnvType :: "PythonEnvKind \<Rightarrow> PythonEnvType option" where
  "getEnvType KindPoetry = Some TypeVirtual"
| "getEnvType KindPyenv = Some TypeVirtual"
| "getEnvType KindVirtualEnv = Some TypeVirtual"
| "getEnvType KindVenv = Some TypeVirtual"
| "getEnvType KindVirtualEnvWrapper = Some TypeVirtual"
| "getEnvType KindOtherVirtual = Some TypeVirtual"
| "getEnvType KindPipenv = Some TypeVirtual"
| "getEnvType KindActiveState = Some TypeVirtual"
| "getEnvType KindHatch = Some TypeVirtual"
| "getEnvType KindPixi = Some TypeVirtual"
| "getEnvType KindConda = Some TypeConda"
| "getEnvType _ = None"

definition getName :: "host \<Rightarrow> NativeEnvInfo \<Rightarrow> PythonEnvKind \<Rightarrow> string" where
  "getName h nativeEnv k =
    (if truthy (name nativeEnv) then the (name nativeEnv)
     else
       (let envType = getEnvType k in
        if truthy (prefix nativeEnv) \<and> (envType = Some TypeConda \<or> envType = Some TypeVirtual)
        then path_basename h (the (prefix nativeEnv))
        else []))"

definition toPythonEnvInfo :: "host \<Rightarrow> NativeEnvInfo \<Rightarrow> PythonEnvInfo option" where
  "toPythonEnvInfo h nativeEnv =
    (if \<not> validEnv nativeEnv then None
     else
       (let k = categoryToKind (kind nativeEnv);
            a = toArch (arch nativeEnv);
            v = parseVersion h (case version nativeEnv of None \<Rightarrow> [] | Some s \<Rightarrow> s);
            n = getName h nativeEnv k;
            dn = (if truthy (version nativeEnv) then getDisplayName v k a n
                  else (case displayName nativeEnv of None \<Rightarrow> ''Python'' | Some d \<Rightarrow> d))
        in Some \<lparr>
             info_name = n,
             info_location = getLocation nativeEnv,
             info_kind = k,
             info_executable = \<lparr>
               filename = (case executable nativeEnv of
                             None \<Rightarrow> makeExecutablePath h (prefix nativeEnv)
                           | Some e \<Rightarrow> e),
               sysPrefix = (case prefix nativeEnv of None \<Rightarrow> [] | Some p \<Rightarrow> p),
               ctime = - 1,
               mtime = - 1 \<rparr>,
             info_version = \<lparr>
               sysVersion = version nativeEnv,
               version_major = major v,
               version_minor = minor v,
               version_micro = micro v \<rparr>,
             info_arch = a,
             info_distro_org = [],
             info_source = [],
             info_detailedDisplayName = dn,
             info_display = dn,
             info_type = getEnvType k \<rparr>))"

section \<open>Environment collection\<close>

text \<open>
  The state of a \<^verbatim>\<open>NativePythonEnvironments\<close> object and of the part of the world it
  writes to. Arrays are objects: \<^verbatim>\<open>_envs\<close> holds a reference into \<open>store\<close>, a map from
  addresses to array contents. \<^verbatim>\<open>push\<close> writes through the reference, \<^verbatim>\<open>filter\<close>
  allocates a new array. Listeners are not modelled; \<open>onChanged\<close> and \<open>onProgress\<close> record
  the events fired, in order. \<open>trace\<close> records calls of \<^verbatim>\<open>traceError\<close> and \<^verbatim>\<open>traceLog\<close>.
  A \<^verbatim>\<open>Deferred\<close> is known by a number. \<open>immediates\<close> counts the callbacks handed to
  \<^verbatim>\<open>setImmediate\<close> (each one iterates \<^verbatim>\<open>this.finder.refresh()\<close> once) and
  \<open>resolveCalls\<close> lists the paths given to \<^verbatim>\<open>this.finder.resolve\<close> by the refresh loop.
  \<^verbatim>\<open>ProgressReportStage\<close> and the \<^verbatim>\<open>Created\<close> and \<^verbatim>\<open>Changed\<close> members of
  \<^verbatim>\<open>FileChangeType\<close> are imported from modules whose source is not at hand; the members
  below are the ones this class uses.
\<close>

datatype ProgressReportStage = idle | discoveryStarted | discoveryFinished

datatype PythonEnvCollectionChangedEvent =
    Created PythonEnvInfo
  | Changed PythonEnvInfo PythonEnvInfo

datatype trace_entry =
    InvalidEnvironment NativeEnvInfo
  | FailedToProcess NativeEnvInfo
  | RefreshStarted
  | RefreshFinished

datatype discovered = Env NativeEnvInfo | Manager NativeEnvManagerInfo

datatype 'a outcome = Rejected | Fulfilled 'a

record state =
  store :: "nat \<Rightarrow> PythonEnvInfo list"
  next_ref :: nat
  envs_ref :: nat
  onChanged :: "PythonEnvCollectionChangedEvent list"
  onProgress :: "ProgressReportStage list"
  refreshState :: ProgressReportStage
  refreshPromise :: "nat option"
  next_promise :: nat
  resolvedPromises :: "nat list"
  immediates :: nat
  resolveCalls :: "string list"
  trace :: "trace_entry list"

text \<open>The constructor: \<^verbatim>\<open>_envs = []\<close>, \<^verbatim>\<open>refreshState = idle\<close>.\<close>

definition new_state :: state where
  "new_state = \<lparr>
     store = (\<lambda>_. []), next_ref = 1, envs_ref = 0,
     onChanged = [], onProgress = [],
     refreshState = idle, refreshPromise = None, next_promise = 0, resolvedPromises = [],
     immediates = 0, resolveCalls = [], trace = [] \<rparr>"

definition envs :: "state \<Rightarrow> PythonEnvInfo list" where
  "envs s = store s (envs_ref s)"

definition array_push :: "nat \<Rightarrow> PythonEnvInfo \<Rightarrow> state \<Rightarrow> state" where
  "array_push r x s = s\<lparr>store := (store s)(r := store s r @ [x])\<rparr>"

definition array_new :: "PythonEnvInfo list \<Rightarrow> state \<Rightarrow> nat \<times> state" where
  "array_new xs s =
     (next_ref s, s\<lparr>store := (store s)(next_ref s := xs), next_ref := Suc (next_ref s)\<rparr>)"

definition traceError :: "trace_entry \<Rightarrow> state \<Rightarrow> state" where
  "traceError e s = s\<lparr>trace := trace s @ [e]\<rparr>"

text \<open>\<^verbatim>\<open>validEnv\<close> logs when it rejects; this is its effect on the state.\<close>

definition validEnv_trace :: "NativeEnvInfo \<Rightarrow> state \<Rightarrow> state" where
  "validEnv_trace nativeEnv s =
     (if validEnv nativeEnv then s else traceError (InvalidEnvironment nativeEnv) s)"

definition same_file :: "PythonEnvInfo \<Rightarrow> PythonEnvInfo \<Rightarrow> bool" where
  "same_file info item = (filename (info_executable item) = filename (info_executable info))"

definition getEnvs :: "state \<Rightarrow> nat" where
  "getEnvs s = envs_ref s"

definition addEnv :: "host \<Rightarrow> NativeEnvInfo \<Rightarrow> state \<Rightarrow> state" where
  "addEnv h native s0 =
     (let s = validEnv_trace native s0 in
      case toPythonEnvInfo h native of
        None \<Rightarrow> s
      | Some info \<Rightarrow>
          (case find (same_file info) (store s (envs_ref s)) of
             Some old \<Rightarrow>
               (let (r, s1) = array_new (filter (\<lambda>item. \<not> same_file info item) (store s (envs_ref s))) s;
                    s2 = s1\<lparr>envs_ref := r\<rparr>;
                    s3 = array_push (envs_ref s2) info s2
                in s3\<lparr>onChanged := onChanged s3 @ [Changed old info]\<rparr>)
           | None \<Rightarrow>
               (let s1 = array_push (envs_ref s) info s
                in s1\<lparr>onChanged := onChanged s1 @ [Created info]\<rparr>)))"

text \<open>
  \<^verbatim>\<open>resolveEnv\<close> awaits \<^verbatim>\<open>this.finder.resolve(envPath)\<close>. The model is given the outcome
  of that request and the state at the moment it settles, and returns what the promise of
  \<^verbatim>\<open>resolveEnv\<close> settles to. The \<^verbatim>\<open>@cache(30_000, true)\<close> decorator is outside the sources
  at hand: this is the method's body, which runs whenever the decorator does not answer
  from its cache.
\<close>

definition resolveEnv ::
  "host \<Rightarrow> string option \<Rightarrow> NativeEnvInfo option outcome \<Rightarrow> state
     \<Rightarrow> PythonEnvInfo option outcome \<times> state" where
  "resolveEnv h envPath response s0 =
     (case envPath of
        None \<Rightarrow> (Fulfilled None, s0)
      | Some p \<Rightarrow>
          (case response of
             Rejected \<Rightarrow> (Rejected, s0)
           | Fulfilled None \<Rightarrow> (Fulfilled None, s0)
           | Fulfilled (Some native) \<Rightarrow>
               (let s = validEnv_trace native s0 in
                case toPythonEnvInfo h native of
                  None \<Rightarrow> (Fulfilled None, s)
                | Some env \<Rightarrow>
                    (case find (same_file env) (store s (envs_ref s)) of
                       Some old \<Rightarrow>
                         (let (r, s1) = array_new (filter (\<lambda>item. \<not> same_file env item) (store s (envs_ref s))) s;
                              s2 = s1\<lparr>envs_ref := r\<rparr>;
                              s3 = array_push (envs_ref s2) env s2
                          in (Fulfilled (Some env), s3\<lparr>onChanged := onChanged s3 @ [Changed old env]\<rparr>))
                     | None \<Rightarrow> (Fulfilled (Some env), s)))))"

text \<open>
  Modelled from the spec: the \<^verbatim>\<open>@cache(30_000, true)\<close> decorator on \<^verbatim>\<open>resolveEnv\<close>, whose
  source (\<^verbatim>\<open>common/utils/decorators\<close>) is missing. The specification says of it:
  "debounced/cached for 30 seconds per distinct path (repeated calls for the same path
  within the window return the previous outcome without hitting the worker)". The cache
  maps the argument of a call to the time its window ends and the outcome of the call that
  ran the body; \<open>now\<close> is the time of the call in milliseconds. A call inside the window
  returns the stored outcome and runs nothing; any other call runs the body and stores its
  outcome for 30 seconds.
\<close>

type_synonym resolve_cache = "string option \<Rightarrow> (nat \<times> PythonEnvInfo option outcome) option"

definition cache_hit :: "resolve_cache \<Rightarrow> nat \<Rightarrow> string option \<Rightarrow> bool" where
  "cache_hit c now envPath =
     (case c envPath of None \<Rightarrow> False | Some (expiry, previous) \<Rightarrow> now < expiry)"

definition resolveEnv_cached ::
  "host \<Rightarrow> nat \<Rightarrow> string option \<Rightarrow> NativeEnvInfo option outcome \<Rightarrow> resolve_cache \<times> state
     \<Rightarrow> PythonEnvInfo option outcome \<times> resolve_cache \<times> state" where
  "resolveEnv_cached h now envPath response cs =
     (case cs of (c, s) \<Rightarrow>
        (if cache_hit c now envPath
         then (case c envPath of
                 Some (expiry, previous) \<Rightarrow> (previous, c, s)
               | None \<Rightarrow> (Fulfilled None, c, s))
         else (case resolveEnv h envPath response s of
                 (result, s') \<Rightarrow> (result, c(envPath \<mapsto> (now + 30000, result)), s'))))"

text \<open>
  \<^verbatim>\<open>triggerRefresh\<close>, up to its \<^verbatim>\<open>return\<close>: the promise handed back and the new state.
  The callback given to \<^verbatim>\<open>setImmediate\<close> runs later; it is \<open>refreshLoopBody\<close> for each
  value that \<^verbatim>\<open>this.finder.refresh()\<close> yields, \<open>refreshResolved\<close> when a
  \<^verbatim>\<open>this.finder.resolve\<close> of the loop answers, and \<open>refreshDone\<close> when the iteration ends.
\<close>

definition triggerRefresh :: "state \<Rightarrow> nat \<times> state" where
  "triggerRefresh s0 =
     (let s = s0\<lparr>trace := trace s0 @ [RefreshStarted]\<rparr> in
      if refreshState s = discoveryStarted \<and> refreshPromise s \<noteq> None
      then (the (refreshPromise s), s)
      else
        (let s1 = s\<lparr>refreshState := discoveryStarted\<rparr>;
             s2 = s1\<lparr>onProgress := onProgress s1 @ [refreshState s1]\<rparr>;
             s3 = s2\<lparr>refreshPromise := Some (next_promise s2), next_promise := Suc (next_promise s2)\<rparr>;
             s4 = s3\<lparr>immediates := Suc (immediates s3)\<rparr>
         in (the (refreshPromise s4), s4)))"

definition isNativeInfoEnvironment :: "discovered \<Rightarrow> bool" where
  "isNativeInfoEnvironment d =
     (case d of Env e \<Rightarrow> True | Manager m \<Rightarrow> (if tool m \<noteq> [] then False else True))"

text \<open>
  Once \<^verbatim>\<open>isNativeInfoEnvironment\<close> has let a value through, the loop reads it as a
  \<^verbatim>\<open>NativeEnvInfo\<close>: of a manager record only \<^verbatim>\<open>executable\<close> and \<^verbatim>\<open>version\<close> are there.
\<close>

definition asNativeEnvInfo :: "discovered \<Rightarrow> NativeEnvInfo" where
  "asNativeEnvInfo d =
     (case d of
        Env e \<Rightarrow> e
      | Manager m \<Rightarrow> \<lparr>
          displayName = None, name = None, executable = Some (manager_executable m),
          kind = None, version = manager_version m, prefix = None, manager = None,
          project = None, arch = None, symlinks = None \<rparr>)"

definition badVersion :: "PythonVersion option \<Rightarrow> bool" where
  "badVersion v = (case v of None \<Rightarrow> True | Some pv \<Rightarrow> major pv < 0 \<or> minor pv < 0 \<or> micro pv < 0)"

definition goodVersion :: "PythonVersion option \<Rightarrow> bool" where
  "goodVersion v = (case v of None \<Rightarrow> False | Some pv \<Rightarrow> major pv \<ge> 0 \<and> minor pv \<ge> 0 \<and> micro pv \<ge> 0)"

definition refreshLoopBody :: "host \<Rightarrow> discovered \<Rightarrow> state \<Rightarrow> state" where
  "refreshLoopBody h d s0 =
     (if \<not> isNativeInfoEnvironment d then s0
      else
        (let native = asNativeEnvInfo d; s = validEnv_trace native s0 in
         if \<not> validEnv native then s
         else
           (let envPath = (case executable native of None \<Rightarrow> prefix native | Some e \<Rightarrow> Some e);
                v = (if truthy (version native) then Some (parseVersion h (the (version native))) else None)
            in
              if categoryToKind (kind native) = KindConda \<and> \<not> truthy (executable native)
              then addEnv h native s
              else if truthy envPath \<and> badVersion v
              then s\<lparr>resolveCalls := resolveCalls s @ [the envPath]\<rparr>
              else if truthy envPath \<and> goodVersion v
              then addEnv h native s
              else traceError (FailedToProcess native) s)))"


definition refreshFinally :: "state \<Rightarrow> state" where
  "refreshFinally s0 =
     (let s = s0\<lparr>trace := trace s0 @ [RefreshFinished]\<rparr>;
          s1 = s\<lparr>refreshState := discoveryFinished\<rparr>;
          s2 = s1\<lparr>refreshPromise := None\<rparr>
      in s2\<lparr>onProgress := onProgress s2 @ [refreshState s2]\<rparr>)"

definition refreshDone :: "state \<Rightarrow> state" where
  "refreshDone s =
     refreshFinally
       (case refreshPromise s of
          None \<Rightarrow> s
        | Some p \<Rightarrow> s\<lparr>resolvedPromises := resolvedPromises s @ [p]\<rparr>)"

text \<open>
  A caller that mutates the array it got from \<^verbatim>\<open>getEnvs\<close> (\<^verbatim>\<open>push\<close>, \<^verbatim>\<open>splice\<close>,
  \<^verbatim>\<open>length = 0\<close>, an index assignment) leaves new contents at that address.
\<close>

definition caller_writes :: "nat \<Rightarrow> PythonEnvInfo list \<Rightarrow> state \<Rightarrow> state" where
  "caller_writes r xs s = s\<lparr>store := (store s)(r := xs)\<rparr>"

subsection \<open>Sequences of operations, and what the specification says of them\<close>

datatype operation =
    AddEnv NativeEnvInfo
  | ResolveEnv "string option" "NativeEnvInfo option outcome"

fun perform :: "host \<Rightarrow> state \<Rightarrow> operation \<Rightarrow> state" where
  "perform h s (AddEnv n) = addEnv h n s"
| "perform h s (ResolveEnv p r) = snd (resolveEnv h p r s)"

definition run :: "host \<Rightarrow> operation list \<Rightarrow> state \<Rightarrow> state" where
  "run h ops s = foldl (perform h) s ops"

definition key :: "PythonEnvInfo \<Rightarrow> string" where
  "key item = filename (info_executable item)"

definition lookup :: "string \<Rightarrow> PythonEnvInfo list \<Rightarrow> PythonEnvInfo option" where
  "lookup f xs = find (\<lambda>item. key item = f) xs"

text \<open>The normalized environment a \<^verbatim>\<open>resolveEnv\<close> call gets from its request, if any.\<close>

definition resolved :: "host \<Rightarrow> string option \<Rightarrow> NativeEnvInfo option outcome \<Rightarrow> PythonEnvInfo option" where
  "resolved h p r =
     (case p of
        None \<Rightarrow> None
      | Some _ \<Rightarrow> (case r of Fulfilled (Some native) \<Rightarrow> toPythonEnvInfo h native | _ \<Rightarrow> None))"

text \<open>
  The specification's reading of the collection, written from its words and not from the
  code: a table from executable path to the most recently applied record for that path.
  \<^verbatim>\<open>addEnv\<close> applies every record that passes validation; \<^verbatim>\<open>resolveEnv\<close> applies its
  record to a path that has an entry.
\<close>

fun latest_step ::
  "host \<Rightarrow> (string \<rightharpoonup> PythonEnvInfo) \<Rightarrow> operation \<Rightarrow> (string \<rightharpoonup> PythonEnvInfo)" where
  "latest_step h m (AddEnv n) =
     (case toPythonEnvInfo h n of None \<Rightarrow> m | Some info \<Rightarrow> m(key info \<mapsto> info))"
| "latest_step h m (ResolveEnv p r) =
     (case resolved h p r of
        None \<Rightarrow> m
      | Some env \<Rightarrow> (if m (key env) = None then m else m(key env \<mapsto> env)))"

definition latest :: "host \<Rightarrow> operation list \<Rightarrow> (string \<rightharpoonup> PythonEnvInfo)" where
  "latest h ops = foldl (latest_step h) Map.empty ops"

definition agrees_list :: "PythonEnvInfo list \<Rightarrow> (string \<rightharpoonup> PythonEnvInfo) \<Rightarrow> bool" where
  "agrees_list xs m = (distinct (map key xs) \<and> (\<forall>f. lookup f xs = m f))"

definition agrees :: "state \<Rightarrow> (string \<rightharpoonup> PythonEnvInfo) \<Rightarrow> bool" where
  "agrees s m = agrees_list (envs s) m"

section \<open>The finder: configuration\<close>

text \<open>
  \<^verbatim>\<open>NativeGlobalPythonFinderImpl\<close>. \<open>requests\<close> lists what went to the worker through
  \<^verbatim>\<open>connection.sendRequest\<close>, in order. \<^verbatim>\<open>firstRefreshResults\<close> holds a generator or
  \<^verbatim>\<open>undefined\<close>; only whether it is set matters here. Writes to the output channel are left
  out.
\<close>

record ConfigurationOptions =
  workspaceDirectories :: "string list"
  environmentDirectories :: "string list"
  condaExecutable :: "string option"
  poetryExecutable :: "string option"
  cacheDirectory :: "string option"

datatype worker_request =
    ConfigureRequest ConfigurationOptions
  | RefreshRequest
  | ResolveRequest string

record finder =
  lastConfiguration :: "ConfigurationOptions option"
  requests :: "worker_request list"
  firstRefreshResults :: bool

text \<open>
  \<^verbatim>\<open>JSON.stringify\<close> on a configuration: strings are quoted and escaped as ECMAScript's
  \<^verbatim>\<open>QuoteJSONString\<close> does, properties come in the order of the object literal, a property
  that is \<^verbatim>\<open>undefined\<close> is left out, and there is no white space.
\<close>

definition hex_digit :: "nat \<Rightarrow> char" where
  "hex_digit n = ''0123456789abcdef'' ! n"

definition json_escape :: "char \<Rightarrow> string" where
  "json_escape c =
     (if c = CHR 0x22 then [CHR 0x5C, CHR 0x22]
      else if c = CHR 0x5C then [CHR 0x5C, CHR 0x5C]
      else if c = CHR 0x08 then [CHR 0x5C, CHR ''b'']
      else if c = CHR 0x0C then [CHR 0x5C, CHR ''f'']
      else if c = CHR 0x0A then [CHR 0x5C, CHR ''n'']
      else if c = CHR 0x0D then [CHR 0x5C, CHR ''r'']
      else if c = CHR 0x09 then [CHR 0x5C, CHR ''t'']
      else if (of_char c :: nat) < 0x20
        then [CHR 0x5C, CHR ''u'', CHR ''0'', CHR ''0'',
              hex_digit ((of_char c :: nat) div 16), hex_digit ((of_char c :: nat) mod 16)]
      else [c])"

definition json_quote :: "string \<Rightarrow> string" where
  "json_quote s = [CHR 0x22] @ concat (map json_escape s) @ [CHR 0x22]"

fun join_comma :: "string list \<Rightarrow> string" where
  "join_comma [] = []"
| "join_comma [x] = x"
| "join_comma (x # y # ys) = x @ '','' @ join_comma (y # ys)"

definition stringify_strings :: "string list \<Rightarrow> string" where
  "stringify_strings xs = ''['' @ join_comma (map json_quote xs) @ '']''"

definition stringify_optional :: "string \<Rightarrow> string option \<Rightarrow> string list" where
  "stringify_optional k v = (case v of None \<Rightarrow> [] | Some x \<Rightarrow> [json_quote k @ '':'' @ json_quote x])"

definition stringify_options :: "ConfigurationOptions \<Rightarrow> string" where
  "stringify_options opts =
     ''{'' @
     join_comma
       ([json_quote ''workspaceDirectories'' @ '':'' @ stringify_strings (workspaceDirectories opts),
         json_quote ''environmentDirectories'' @ '':'' @ stringify_strings (environmentDirectories opts)]
        @ stringify_optional ''condaExecutable'' (condaExecutable opts)
        @ stringify_optional ''poetryExecutable'' (poetryExecutable opts)
        @ stringify_optional ''cacheDirectory'' (cacheDirectory opts))
     @ ''}''"

text \<open>\<^verbatim>\<open>JSON.stringify(this.lastConfiguration || {})\<close>\<close>

definition stringify_last :: "ConfigurationOptions option \<Rightarrow> string" where
  "stringify_last l = (case l of None \<Rightarrow> ''{}'' | Some opts \<Rightarrow> stringify_options opts)"

text \<open>
  \<^verbatim>\<open>configure\<close>. The options are read from the editor's settings at each call; they are
  the argument here. A request that fails is caught and logged, so the state after the call
  does not depend on the worker's answer.
\<close>

definition configure :: "ConfigurationOptions \<Rightarrow> finder \<Rightarrow> finder" where
  "configure opts f =
     (if stringify_options opts = stringify_last (lastConfiguration f) then f
      else f\<lparr>lastConfiguration := Some opts, requests := requests f @ [ConfigureRequest opts]\<rparr>)"

definition connected :: finder where
  "connected = \<lparr>lastConfiguration = None, requests = [], firstRefreshResults = False\<rparr>"

text \<open>
  The requests of one \<^verbatim>\<open>doRefresh\<close> (\<^verbatim>\<open>configure\<close>, then \<^verbatim>\<open>refresh\<close>), the constructor,
  and the first step of the generator \<^verbatim>\<open>refresh\<close>, which either takes the results of the
  constructor's scan or starts a scan of its own.
\<close>

definition doRefresh_requests :: "ConfigurationOptions \<Rightarrow> finder \<Rightarrow> finder" where
  "doRefresh_requests opts f =
     (let f1 = configure opts f in f1\<lparr>requests := requests f1 @ [RefreshRequest]\<rparr>)"

definition new_finder :: "ConfigurationOptions \<Rightarrow> finder" where
  "new_finder opts =
     (let f1 = configure opts connected;
          f2 = doRefresh_requests opts f1
      in f2\<lparr>firstRefreshResults := True\<rparr>)"

definition finder_refresh :: "ConfigurationOptions \<Rightarrow> finder \<Rightarrow> finder" where
  "finder_refresh opts f =
     (if firstRefreshResults f then f\<lparr>firstRefreshResults := False\<rparr>
      else doRefresh_requests opts f)"

definition refresh_requests :: "finder \<Rightarrow> nat" where
  "refresh_requests f = length (filter (\<lambda>r. r = RefreshRequest) (requests f))"

text \<open>
  A callback queued by \<^verbatim>\<open>triggerRefresh\<close> starts: \<^verbatim>\<open>for await (... of this.finder.refresh())\<close>
  asks the generator for its first value.
\<close>

definition run_immediate ::
  "ConfigurationOptions \<Rightarrow> state \<times> finder \<Rightarrow> (state \<times> finder) option" where
  "run_immediate opts sf =
     (case sf of (s, f) \<Rightarrow>
        (if immediates s = 0 then None
         else Some (s\<lparr>immediates := immediates s - 1\<rparr>, finder_refresh opts f)))"

section \<open>The finder: one refresh and its completion\<close>

text \<open>
  The local state of one \<^verbatim>\<open>doRefresh\<close> call. A tracked promise is the request it waits for
  and whether it has settled; both kinds of tracked promise end in a \<^verbatim>\<open>catch\<close>, so they
  settle by fulfilling. \<open>waiting\<close> holds, for every \<^verbatim>\<open>Promise.all(pendingPromises)\<close> that
  has not answered yet, the \<^verbatim>\<open>initialCount\<close> of its \<^verbatim>\<open>notifyUponCompletion\<close>: the array
  is read when \<^verbatim>\<open>Promise.all\<close> is called, so it waits for the promises at the positions
  below \<^verbatim>\<open>initialCount\<close>. \<open>timeouts\<close> counts the pending
  \<^verbatim>\<open>setTimeout(notifyUponCompletion, 0)\<close>. \<open>fired\<close> lists the values given to
  \<^verbatim>\<open>discovered.fire\<close>, which the generator \<^verbatim>\<open>refresh\<close> yields in that order.
\<close>

record refresh_job =
  pendingPromises :: "(worker_request \<times> bool) list"
  waiting :: "nat list"
  timeouts :: nat
  completed :: bool
  fired :: "discovered list"

definition notifyUponCompletion :: "refresh_job \<Rightarrow> refresh_job" where
  "notifyUponCompletion j = j\<lparr>waiting := waiting j @ [length (pendingPromises j)]\<rparr>"

definition trackPromiseAndNotifyOnCompletion :: "worker_request \<Rightarrow> refresh_job \<Rightarrow> refresh_job" where
  "trackPromiseAndNotifyOnCompletion r j =
     notifyUponCompletion (j\<lparr>pendingPromises := pendingPromises j @ [(r, False)]\<rparr>)"

definition onEnvironment :: "NativeEnvInfo \<Rightarrow> refresh_job \<Rightarrow> refresh_job" where
  "onEnvironment data j =
     (if truthy (executable data) \<and> (\<not> truthy (version data) \<or> \<not> truthy (prefix data))
      then trackPromiseAndNotifyOnCompletion (ResolveRequest (the (executable data))) j
      else j\<lparr>fired := fired j @ [Env data]\<rparr>)"

definition onManager :: "NativeEnvManagerInfo \<Rightarrow> refresh_job \<Rightarrow> refresh_job" where
  "onManager data j = j\<lparr>fired := fired j @ [Manager data]\<rparr>"

definition doRefresh :: refresh_job where
  "doRefresh =
     trackPromiseAndNotifyOnCompletion RefreshRequest
       \<lparr>pendingPromises = [], waiting = [], timeouts = 0, completed = False, fired = []\<rparr>"

text \<open>
  What can happen next to a refresh, one event-loop task at a time. \<open>job_step\<close> is \<open>None\<close>
  when the event cannot happen in that state. The notification handlers are disposed when
  \<^verbatim>\<open>completed\<close> resolves, so a later notification changes nothing.
  \<open>Settled i r\<close>: the request of the tracked promise at position \<open>i\<close> is answered, with a
  record (\<open>Some\<close>) or an error (\<open>None\<close>), and the promise's own handlers run.
  \<open>AllSettled k\<close>: the \<^verbatim>\<open>Promise.all\<close> at position \<open>k\<close> of \<open>waiting\<close> fulfils and its
  \<^verbatim>\<open>then\<close> callback runs. \<open>Timeout\<close>: a pending \<^verbatim>\<open>setTimeout\<close> callback runs.
\<close>

datatype job_event =
    EnvironmentNotification NativeEnvInfo
  | ManagerNotification NativeEnvManagerInfo
  | Settled nat "NativeEnvInfo option"
  | AllSettled nat
  | Timeout

definition settle :: "nat \<Rightarrow> NativeEnvInfo option \<Rightarrow> refresh_job \<Rightarrow> refresh_job" where
  "settle i r j =
     (let req = fst (pendingPromises j ! i);
          j1 = j\<lparr>pendingPromises := (pendingPromises j)[i := (req, True)]\<rparr>
      in case (req, r) of
           (ResolveRequest _, Some environment) \<Rightarrow> j1\<lparr>fired := fired j1 @ [Env environment]\<rparr>
         | _ \<Rightarrow> j1)"

definition all_settled :: "nat \<Rightarrow> refresh_job \<Rightarrow> refresh_job" where
  "all_settled k j =
     (let initialCount = waiting j ! k;
          j1 = j\<lparr>waiting := take k (waiting j) @ drop (Suc k) (waiting j)\<rparr>
      in if initialCount = length (pendingPromises j1) then j1\<lparr>completed := True\<rparr>
         else j1\<lparr>timeouts := Suc (timeouts j1)\<rparr>)"

fun job_step :: "job_event \<Rightarrow> refresh_job \<Rightarrow> refresh_job option" where
  "job_step (EnvironmentNotification data) j =
     (if completed j then Some j else Some (onEnvironment data j))"
| "job_step (ManagerNotification data) j =
     (if completed j then Some j else Some (onManager data j))"
| "job_step (Settled i r) j =
     (if i < length (pendingPromises j) \<and> \<not> snd (pendingPromises j ! i)
      then Some (settle i r j) else None)"
| "job_step (AllSettled k) j =
     (if k < length (waiting j) \<and> list_all snd (take (waiting j ! k) (pendingPromises j))
      then Some (all_settled k j) else None)"
| "job_step Timeout j =
     (if timeouts j = 0 then None
      else Some (notifyUponCompletion (j\<lparr>timeouts := timeouts j - 1\<rparr>)))"

fun job_run :: "job_event list \<Rightarrow> refresh_job \<Rightarrow> refresh_job option" where
  "job_run [] j = Some j"
| "job_run (e # es) j = (case job_step e j of None \<Rightarrow> None | Some j' \<Rightarrow> job_run es j')"

definition outstanding :: "refresh_job \<Rightarrow> worker_request list" where
  "outstanding j = map fst (filter (\<lambda>p. \<not> snd p) (pendingPromises j))"

text \<open>What holds of every state a refresh can reach.\<close>

definition job_inv :: "refresh_job \<Rightarrow> bool" where
  "job_inv j =
     ((completed j \<longrightarrow> list_all snd (pendingPromises j))
      \<and> pendingPromises j \<noteq> []
      \<and> fst (pendingPromises j ! 0) = RefreshRequest)"

section \<open>Worked inputs\<close>

text \<open>A POSIX host whose version parser knows one version string, and a few raw records.\<close>

definition example_host :: host where
  "example_host = \<lparr>
     win32 = False,
     path_join = (\<lambda>a b. a @ ''/'' @ b),
     path_basename = (\<lambda>p. rev (takeWhile (\<lambda>c. c \<noteq> CHR ''/'') (rev p))),
     parseVersion = (\<lambda>v. if v = ''3.10.4'' then \<lparr>major = 3, minor = 10, micro = 4\<rparr>
                          else \<lparr>major = - 1, minor = - 1, micro = - 1\<rparr>) \<rparr>"

definition raw_record ::
  "string option \<Rightarrow> string option \<Rightarrow> string option \<Rightarrow> PythonEnvironmentKind option \<Rightarrow> NativeEnvInfo" where
  "raw_record e p v k = \<lparr>
     displayName = None, name = None, executable = e, kind = k, version = v, prefix = p,
     manager = None, project = None, arch = None, symlinks = None \<rparr>"

definition example_options :: ConfigurationOptions where
  "example_options = \<lparr>
     workspaceDirectories = [''/work''], environmentDirectories = [],
     condaExecutable = None, poetryExecutable = Some ''/bin/poetry'', cacheDirectory = None \<rparr>"

definition venv_a :: NativeEnvInfo where
  "venv_a = raw_record (Some ''/a/python'') (Some ''/a'') (Some ''3.10.4'') (Some Venv)"

definition venv_b :: NativeEnvInfo where
  "venv_b = raw_record (Some ''/b/python'') (Some ''/b'') (Some ''3.10.4'') (Some Venv)"

text \<open>Another record for the executable of \<open>venv_a\<close>.\<close>

definition venv_a_again :: NativeEnvInfo where
  "venv_a_again = raw_record (Some ''/a/python'') (Some ''/a'') None (Some VirtualEnv)"

definition conda_foo :: NativeEnvInfo where
  "conda_foo = raw_record None (Some ''/opt/conda/envs/foo'') None (Some Conda)"

definition two_envs :: state where
  "two_envs = run example_host [AddEnv venv_a, AddEnv venv_b] new_state"

section \<open>Properties of the environment collection\<close>

lemma same_file_key: "same_file info item = (key item = key info)"
  by (simp add: same_file_def key_def)

lemma find_same_file: "find (same_file a) xs = lookup (key a) xs"
proof -
  have "same_file a = (\<lambda>item. key item = key a)"
    by (rule ext) (simp add: same_file_key)
  then show ?thesis by (simp add: lookup_def)
qed

lemma filter_same_file:
  "filter (\<lambda>item. \<not> same_file a item) xs = filter (\<lambda>item. key item \<noteq> key a) xs"
  by (simp add: same_file_key)

lemma lookup_None_filter: "lookup f xs = None \<Longrightarrow> filter (\<lambda>item. key item \<noteq> f) xs = xs"
  unfolding lookup_def by (induction xs) (auto split: if_splits)

lemma toPythonEnvInfo_valid: "toPythonEnvInfo h n = Some info \<Longrightarrow> validEnv n"
  by (auto simp: toPythonEnvInfo_def split: if_splits)

lemma toPythonEnvInfo_invalid: "\<not> validEnv n \<Longrightarrow> toPythonEnvInfo h n = None"
  by (simp add: toPythonEnvInfo_def)

lemma addEnv_invalid:
  "\<not> validEnv n \<Longrightarrow> addEnv h n s = s\<lparr>trace := trace s @ [InvalidEnvironment n]\<rparr>"
  by (simp add: addEnv_def toPythonEnvInfo_invalid validEnv_trace_def traceError_def)

lemma envs_addEnv:
  "envs (addEnv h n s) =
     (case toPythonEnvInfo h n of
        None \<Rightarrow> envs s
      | Some info \<Rightarrow> filter (\<lambda>item. key item \<noteq> key info) (envs s) @ [info])"
proof (cases "toPythonEnvInfo h n")
  case None
  then show ?thesis
    by (simp add: addEnv_def envs_def validEnv_trace_def traceError_def)
next
  case (Some info)
  then have v: "validEnv_trace n s = s"
    by (simp add: validEnv_trace_def toPythonEnvInfo_valid)
  show ?thesis
  proof (cases "lookup (key info) (envs s)")
    case None
    with Some v show ?thesis
      by (simp add: addEnv_def find_same_file envs_def [symmetric] lookup_None_filter)
         (simp add: envs_def array_push_def)
  next
    case (Some old)
    with \<open>toPythonEnvInfo h n = Some info\<close> v show ?thesis
      by (simp add: addEnv_def find_same_file filter_same_file envs_def [symmetric])
         (simp add: envs_def array_new_def array_push_def)
  qed
qed

lemma onChanged_addEnv:
  "onChanged (addEnv h n s) =
     onChanged s @
     (case toPythonEnvInfo h n of
        None \<Rightarrow> []
      | Some info \<Rightarrow>
          (case lookup (key info) (envs s) of
             None \<Rightarrow> [Created info]
           | Some old \<Rightarrow> [Changed old info]))"
proof (cases "toPythonEnvInfo h n")
  case None
  then show ?thesis
    by (simp add: addEnv_def validEnv_trace_def traceError_def)
next
  case (Some info)
  then have v: "validEnv_trace n s = s"
    by (simp add: validEnv_trace_def toPythonEnvInfo_valid)
  from Some v show ?thesis
    by (simp add: addEnv_def find_same_file envs_def [symmetric] array_new_def array_push_def
             split: option.splits)
qed

lemma resolveEnv_result:
  "fst (resolveEnv h p r s) = (case r of Rejected \<Rightarrow> (case p of None \<Rightarrow> Fulfilled None | Some _ \<Rightarrow> Rejected)
                               | Fulfilled _ \<Rightarrow> Fulfilled (resolved h p r))"
  by (simp add: resolveEnv_def resolved_def Let_def split: option.splits outcome.splits prod.splits)

lemma envs_resolveEnv:
  "envs (snd (resolveEnv h p r s)) =
     (case resolved h p r of
        None \<Rightarrow> envs s
      | Some env \<Rightarrow>
          (case lookup (key env) (envs s) of
             None \<Rightarrow> envs s
           | Some old \<Rightarrow> filter (\<lambda>item. key item \<noteq> key env) (envs s) @ [env]))"
proof (cases "resolved h p r")
  case None
  then show ?thesis
    by (auto simp: resolveEnv_def resolved_def envs_def validEnv_trace_def traceError_def
             split: option.splits outcome.splits)
next
  case (Some env)
  then obtain q native where pr: "p = Some q" "r = Fulfilled (Some native)"
    and t: "toPythonEnvInfo h native = Some env"
    by (auto simp: resolved_def split: option.splits outcome.splits)
  then have v: "validEnv_trace native s = s"
    by (simp add: validEnv_trace_def toPythonEnvInfo_valid)
  from Some pr t v show ?thesis
    by (simp add: resolveEnv_def find_same_file filter_same_file envs_def [symmetric]
             split: option.splits)
       (simp add: envs_def array_new_def array_push_def)
qed

lemma onChanged_resolveEnv:
  "onChanged (snd (resolveEnv h p r s)) =
     onChanged s @
     (case resolved h p r of
        None \<Rightarrow> []
      | Some env \<Rightarrow>
          (case lookup (key env) (envs s) of
             None \<Rightarrow> []
           | Some old \<Rightarrow> [Changed old env]))"
proof (cases "resolved h p r")
  case None
  then show ?thesis
    by (auto simp: resolveEnv_def resolved_def validEnv_trace_def traceError_def
             split: option.splits outcome.splits)
next
  case (Some env)
  then obtain q native where pr: "p = Some q" "r = Fulfilled (Some native)"
    and t: "toPythonEnvInfo h native = Some env"
    by (auto simp: resolved_def split: option.splits outcome.splits)
  then have v: "validEnv_trace native s = s"
    by (simp add: validEnv_trace_def toPythonEnvInfo_valid)
  from Some pr t v show ?thesis
    by (simp add: resolveEnv_def find_same_file envs_def [symmetric] array_new_def array_push_def
             split: option.splits)
qed

lemma resolveEnv_absent_unchanged:
  assumes "resolved h p r = Some env" "lookup (key env) (envs s) = None"
  shows "snd (resolveEnv h p r s) = s"
proof -
  from assms(1) obtain q native where pr: "p = Some q" "r = Fulfilled (Some native)"
    and t: "toPythonEnvInfo h native = Some env"
    by (auto simp: resolved_def split: option.splits outcome.splits)
  then have v: "validEnv_trace native s = s"
    by (simp add: validEnv_trace_def toPythonEnvInfo_valid)
  from pr t v assms(2) show ?thesis
    by (simp add: resolveEnv_def find_same_file envs_def [symmetric])
qed

lemma distinct_replace:
  "distinct (map key xs) \<Longrightarrow> distinct (map key (filter (\<lambda>item. key item \<noteq> key a) xs @ [a]))"
  by (auto simp: distinct_map_filter)

lemma lookup_replace:
  "lookup f (filter (\<lambda>item. key item \<noteq> key a) xs @ [a]) =
     (if f = key a then Some a else lookup f xs)"
  by (induction xs) (auto simp: lookup_def)

lemma agrees_list_replace:
  assumes "agrees_list xs m"
  shows "agrees_list (filter (\<lambda>item. key item \<noteq> key a) xs @ [a]) (m(key a \<mapsto> a))"
proof -
  have "distinct (map key (filter (\<lambda>item. key item \<noteq> key a) xs @ [a]))"
    using assms distinct_replace by (simp only: agrees_list_def)
  moreover have "\<forall>f. lookup f (filter (\<lambda>item. key item \<noteq> key a) xs @ [a]) = (m(key a \<mapsto> a)) f"
    using assms by (simp add: lookup_replace agrees_list_def)
  ultimately show ?thesis unfolding agrees_list_def by blast
qed

lemma agrees_perform: "agrees s m \<Longrightarrow> agrees (perform h s op) (latest_step h m op)"
proof (cases op)
  case (AddEnv n)
  assume a: "agrees s m"
  show ?thesis
  proof (cases "toPythonEnvInfo h n")
    case None
    with a AddEnv show ?thesis by (simp add: agrees_def envs_addEnv)
  next
    case (Some info)
    with a AddEnv show ?thesis
      by (simp add: agrees_def envs_addEnv agrees_list_replace)
  qed
next
  case (ResolveEnv p r)
  assume a: "agrees s m"
  show ?thesis
  proof (cases "resolved h p r")
    case None
    with a ResolveEnv show ?thesis by (simp add: agrees_def envs_resolveEnv)
  next
    case (Some env)
    show ?thesis
    proof (cases "lookup (key env) (envs s)")
      case None
      with a have "m (key env) = None" by (simp add: agrees_def agrees_list_def)
      with a ResolveEnv Some None show ?thesis
        by (simp add: agrees_def envs_resolveEnv)
    next
      case (Some old)
      with a have "m (key env) = Some old" by (simp add: agrees_def agrees_list_def)
      with a ResolveEnv \<open>resolved h p r = Some env\<close> Some show ?thesis
        by (simp add: agrees_def envs_resolveEnv agrees_list_replace)
    qed
  qed
qed

lemma agrees_foldl: "agrees s m \<Longrightarrow> agrees (foldl (perform h) s ops) (foldl (latest_step h) m ops)"
  by (induction ops arbitrary: s m) (auto simp: agrees_perform)

lemma agrees_new: "agrees new_state Map.empty"
  by (simp add: agrees_def agrees_list_def new_state_def envs_def lookup_def)

lemma agrees_run: "agrees (run h ops new_state) (latest h ops)"
  unfolding run_def latest_def by (rule agrees_foldl [OF agrees_new])

text \<open>
  C8. \<^verbatim>\<open>addEnv\<close> on a raw record with neither prefix nor executable: validation rejects it,
  the error is logged, and nothing else changes: the array, the reference to it and the
  events fired are the same, so no entry was added or replaced and no Created or Changed
  event fired.
\<close>

theorem addEnv_rejects_record_without_paths:
  assumes "prefix native = None" and "executable native = None"
  shows "addEnv h native s = s\<lparr>trace := trace s @ [InvalidEnvironment native]\<rparr>
         \<and> envs (addEnv h native s) = envs s
         \<and> onChanged (addEnv h native s) = onChanged s"
proof -
  from assms have "\<not> validEnv native" by (simp add: validEnv_def)
  then have "addEnv h native s = s\<lparr>trace := trace s @ [InvalidEnvironment native]\<rparr>"
    by (rule addEnv_invalid)
  then show ?thesis by (simp add: envs_def)
qed

theorem addEnv_rejects_record_without_paths_witness:
  "prefix (raw_record None None (Some ''3.10.4'') (Some Venv)) = None
   \<and> executable (raw_record None None (Some ''3.10.4'') (Some Venv)) = None
   \<and> addEnv example_host (raw_record None None (Some ''3.10.4'') (Some Venv)) two_envs
       = two_envs\<lparr>trace := trace two_envs @ [InvalidEnvironment (raw_record None None (Some ''3.10.4'') (Some Venv))]\<rparr>
   \<and> envs (addEnv example_host (raw_record None None (Some ''3.10.4'') (Some Venv)) two_envs) = envs two_envs
   \<and> length (envs two_envs) = 2"
proof -
  have p: "prefix (raw_record None None (Some ''3.10.4'') (Some Venv)) = None"
    by (simp add: raw_record_def)
  have e: "executable (raw_record None None (Some ''3.10.4'') (Some Venv)) = None"
    by (simp add: raw_record_def)
  have l: "length (envs two_envs) = 2"
    by code_simp
  from addEnv_rejects_record_without_paths [OF p e, of example_host two_envs] p e l
  show ?thesis by blast
qed

text \<open>
  C9, as stated, fails: the entry that replaces an old one need not take the old one's
  position. With the collection holding the entries of \<open>venv_a\<close> and \<open>venv_b\<close> in that
  order, adding another record for the executable of \<open>venv_a\<close> leaves the entry of
  \<open>venv_b\<close> at position 0, where the replaced entry was, and puts the new entry last.
\<close>

theorem addEnv_replace_position_counterexample:
  "key (envs two_envs ! 0) = key (the (toPythonEnvInfo example_host venv_a_again))
   \<and> envs (addEnv example_host venv_a_again two_envs) ! 0 \<noteq> the (toPythonEnvInfo example_host venv_a_again)
   \<and> envs (addEnv example_host venv_a_again two_envs)
       = [the (toPythonEnvInfo example_host venv_b), the (toPythonEnvInfo example_host venv_a_again)]"
  by code_simp

text \<open>
  C9, amended. When \<^verbatim>\<open>addEnv\<close> is called with a record whose normalized executable path
  is already present, every entry with that path is removed, the other entries keep their
  order, and the new entry is appended at the end of the list.
\<close>

theorem addEnv_replaces_at_end:
  assumes "toPythonEnvInfo h native = Some info" and "lookup (key info) (envs s) = Some old"
  shows "envs (addEnv h native s) = filter (\<lambda>item. key item \<noteq> key info) (envs s) @ [info]
         \<and> last (envs (addEnv h native s)) = info"
  using assms by (simp add: envs_addEnv)

theorem addEnv_replaces_at_end_witness:
  "toPythonEnvInfo example_host venv_a_again = Some (the (toPythonEnvInfo example_host venv_a_again))
   \<and> lookup (key (the (toPythonEnvInfo example_host venv_a_again))) (envs two_envs)
       = Some (the (toPythonEnvInfo example_host venv_a))
   \<and> envs (addEnv example_host venv_a_again two_envs)
       = filter (\<lambda>item. key item \<noteq> key (the (toPythonEnvInfo example_host venv_a_again))) (envs two_envs)
         @ [the (toPythonEnvInfo example_host venv_a_again)]
   \<and> last (envs (addEnv example_host venv_a_again two_envs)) = the (toPythonEnvInfo example_host venv_a_again)"
proof -
  have t: "toPythonEnvInfo example_host venv_a_again = Some (the (toPythonEnvInfo example_host venv_a_again))"
    by code_simp
  have l: "lookup (key (the (toPythonEnvInfo example_host venv_a_again))) (envs two_envs)
             = Some (the (toPythonEnvInfo example_host venv_a))"
    by code_simp
  from addEnv_replaces_at_end [OF t l] t l show ?thesis by simp
qed

text \<open>
  C1. Take any sequence of \<^verbatim>\<open>addEnv\<close> and \<^verbatim>\<open>resolveEnv\<close> operations on a new collection
  and let \<open>s\<close> be the state it leads to. Then no two entries of the collection have the
  same executable path, and the entry found for a path is the most recently applied record
  for that path (\<open>latest\<close>). A further \<^verbatim>\<open>addEnv\<close> of a record that normalizes to \<open>info\<close>:
  if the path of \<open>info\<close> has no entry, \<open>info\<close> is appended and \<open>Created info\<close> is fired;
  if it has the entry \<open>old\<close>, that entry is removed, \<open>info\<close> is put in, and
  \<open>Changed old info\<close> is fired; either way the entry for that path is then \<open>info\<close>.
\<close>

theorem collection_one_entry_per_path:
  fixes h :: host and ops :: "operation list"
  defines "s \<equiv> run h ops new_state"
  shows "distinct (map key (envs s))
         \<and> (\<forall>f. lookup f (envs s) = latest h ops f)
         \<and> (\<forall>native info. toPythonEnvInfo h native = Some info \<longrightarrow>
               (lookup (key info) (envs s) = None \<longrightarrow>
                  envs (addEnv h native s) = envs s @ [info]
                  \<and> onChanged (addEnv h native s) = onChanged s @ [Created info])
               \<and> (\<forall>old. lookup (key info) (envs s) = Some old \<longrightarrow>
                  envs (addEnv h native s) = filter (\<lambda>item. key item \<noteq> key info) (envs s) @ [info]
                  \<and> onChanged (addEnv h native s) = onChanged s @ [Changed old info])
               \<and> lookup (key info) (envs (addEnv h native s)) = Some info)"
proof -
  have a: "agrees_list (envs s) (latest h ops)"
    unfolding s_def using agrees_run [of h ops] by (simp only: agrees_def)
  have d: "distinct (map key (envs s))"
    using a unfolding agrees_list_def by blast
  have l: "\<forall>f. lookup f (envs s) = latest h ops f"
    using a unfolding agrees_list_def by blast
  have e: "\<forall>native info. toPythonEnvInfo h native = Some info \<longrightarrow>
               (lookup (key info) (envs s) = None \<longrightarrow>
                  envs (addEnv h native s) = envs s @ [info]
                  \<and> onChanged (addEnv h native s) = onChanged s @ [Created info])
               \<and> (\<forall>old. lookup (key info) (envs s) = Some old \<longrightarrow>
                  envs (addEnv h native s) = filter (\<lambda>item. key item \<noteq> key info) (envs s) @ [info]
                  \<and> onChanged (addEnv h native s) = onChanged s @ [Changed old info])
               \<and> lookup (key info) (envs (addEnv h native s)) = Some info"
    by (simp add: envs_addEnv onChanged_addEnv lookup_None_filter lookup_replace)
  from d l e show ?thesis by blast
qed

theorem collection_one_entry_per_path_witness:
  "distinct (map key (envs (run example_host [AddEnv venv_a, AddEnv venv_b, ResolveEnv (Some ''/a/python'') (Fulfilled (Some venv_a_again))] new_state)))
   \<and> toPythonEnvInfo example_host venv_a = Some (the (toPythonEnvInfo example_host venv_a))
   \<and> lookup (key (the (toPythonEnvInfo example_host venv_a)))
        (envs (run example_host [AddEnv venv_a, AddEnv venv_b, ResolveEnv (Some ''/a/python'') (Fulfilled (Some venv_a_again))] new_state))
       = Some (the (toPythonEnvInfo example_host venv_a_again))
   \<and> latest example_host [AddEnv venv_a, AddEnv venv_b, ResolveEnv (Some ''/a/python'') (Fulfilled (Some venv_a_again))] ''/a/python''
       = Some (the (toPythonEnvInfo example_host venv_a_again))
   \<and> envs (addEnv example_host venv_a
        (run example_host [AddEnv venv_a, AddEnv venv_b, ResolveEnv (Some ''/a/python'') (Fulfilled (Some venv_a_again))] new_state))
       = [the (toPythonEnvInfo example_host venv_b), the (toPythonEnvInfo example_host venv_a)]
   \<and> onChanged (addEnv example_host venv_a
        (run example_host [AddEnv venv_a, AddEnv venv_b, ResolveEnv (Some ''/a/python'') (Fulfilled (Some venv_a_again))] new_state))
       = onChanged (run example_host [AddEnv venv_a, AddEnv venv_b, ResolveEnv (Some ''/a/python'') (Fulfilled (Some venv_a_again))] new_state)
         @ [Changed (the (toPythonEnvInfo example_host venv_a_again)) (the (toPythonEnvInfo example_host venv_a))]
   \<and> toPythonEnvInfo example_host conda_foo = Some (the (toPythonEnvInfo example_host conda_foo))
   \<and> lookup (key (the (toPythonEnvInfo example_host conda_foo)))
        (envs (run example_host [AddEnv venv_a, AddEnv venv_b, ResolveEnv (Some ''/a/python'') (Fulfilled (Some venv_a_again))] new_state))
       = None
   \<and> envs (addEnv example_host conda_foo
        (run example_host [AddEnv venv_a, AddEnv venv_b, ResolveEnv (Some ''/a/python'') (Fulfilled (Some venv_a_again))] new_state))
       = envs (run example_host [AddEnv venv_a, AddEnv venv_b, ResolveEnv (Some ''/a/python'') (Fulfilled (Some venv_a_again))] new_state)
         @ [the (toPythonEnvInfo example_host conda_foo)]
   \<and> onChanged (addEnv example_host conda_foo
        (run example_host [AddEnv venv_a, AddEnv venv_b, ResolveEnv (Some ''/a/python'') (Fulfilled (Some venv_a_again))] new_state))
       = onChanged (run example_host [AddEnv venv_a, AddEnv venv_b, ResolveEnv (Some ''/a/python'') (Fulfilled (Some venv_a_again))] new_state)
         @ [Created (the (toPythonEnvInfo example_host conda_foo))]"
  (is "?d \<and> ?t \<and> ?l \<and> ?m \<and> ?e \<and> ?c \<and> ?t2 \<and> ?l2 \<and> ?e2 \<and> ?c2")
proof -
  let ?ops = "[AddEnv venv_a, AddEnv venv_b, ResolveEnv (Some ''/a/python'') (Fulfilled (Some venv_a_again))]"
  note inst = collection_one_entry_per_path [of example_host ?ops]
  have t: ?t by code_simp
  have l: ?l by code_simp
  have k: "key (the (toPythonEnvInfo example_host venv_a)) = ''/a/python''" by code_simp
  have f: "filter (\<lambda>item. key item \<noteq> key (the (toPythonEnvInfo example_host venv_a))) (envs (run example_host ?ops new_state))
            = [the (toPythonEnvInfo example_host venv_b)]"
    by code_simp
  from inst have d: ?d by blast
  from inst l k have m: ?m by metis
  from inst t l have "envs (addEnv example_host venv_a (run example_host ?ops new_state))
      = filter (\<lambda>item. key item \<noteq> key (the (toPythonEnvInfo example_host venv_a))) (envs (run example_host ?ops new_state))
        @ [the (toPythonEnvInfo example_host venv_a)]"
    by blast
  with f have e: ?e by simp
  from inst t l have c: ?c by blast
  have t2: ?t2 by code_simp
  have l2: ?l2 by code_simp
  from inst t2 l2 have e2: ?e2 and c2: ?c2 by blast+
  from d t l m e c t2 l2 e2 c2 show ?thesis by blast
qed

section \<open>Properties of the finder\<close>

lemma stringify_options_not_empty_object: "stringify_options opts \<noteq> ''{}''"
  by (simp add: stringify_options_def json_quote_def)

lemma configure_again: "configure opts (configure opts f) = configure opts f"
  by (simp add: configure_def stringify_last_def)

lemma configure_connected:
  "configure opts connected = \<lparr>lastConfiguration = Some opts, requests = [ConfigureRequest opts], firstRefreshResults = False\<rparr>"
  by (simp add: configure_def stringify_last_def connected_def stringify_options_not_empty_object)

text \<open>
  C5. Two calls of \<^verbatim>\<open>configure\<close> in succession with equal options: the second call finds
  its snapshot equal to the last one sent, sends nothing and leaves the finder as it was,
  whatever the finder's state before the first call. On a fresh connection the first call
  sends its request, so that exactly one request goes to the worker.
\<close>

theorem configure_twice_sends_one_request:
  "configure opts (configure opts f) = configure opts f
   \<and> requests (configure opts (configure opts f)) = requests (configure opts f)
   \<and> requests (configure opts (configure opts connected)) = [ConfigureRequest opts]"
proof -
  have "requests (configure opts (configure opts connected)) = requests (configure opts connected)"
    by (simp only: configure_again)
  also have "\<dots> = [ConfigureRequest opts]"
    by (simp add: configure_connected)
  finally show ?thesis
    by (simp only: configure_again)
qed

theorem configure_twice_sends_one_request_witness:
  \<open>requests (configure example_options (configure example_options connected))
     = [ConfigureRequest example_options]
   \<and> stringify_options example_options
     = ''{"workspaceDirectories":["/work"],"environmentDirectories":[],"poetryExecutable":"/bin/poetry"}''\<close>
proof -
  have \<open>stringify_options example_options
     = ''{"workspaceDirectories":["/work"],"environmentDirectories":[],"poetryExecutable":"/bin/poetry"}''\<close>
    by code_simp
  with configure_twice_sends_one_request [of example_options connected] show ?thesis
    by blast
qed

lemma outstanding_empty: "(outstanding j = []) = list_all snd (pendingPromises j)"
  by (auto simp: outstanding_def filter_empty_conv list_all_iff)

lemma job_inv_doRefresh: "job_inv doRefresh"
  by (simp add: job_inv_def doRefresh_def trackPromiseAndNotifyOnCompletion_def
                notifyUponCompletion_def)

lemma list_all_snd_update:
  "list_all snd ps \<Longrightarrow> list_all snd (ps[i := (r, True)])"
  by (auto simp: list_all_iff dest!: set_update_subset_insert [THEN subsetD])

lemma pendingPromises_settle:
  "pendingPromises (settle i r j) = (pendingPromises j)[i := (fst (pendingPromises j ! i), True)]"
  by (simp add: settle_def Let_def split: worker_request.splits option.splits)

lemma completed_settle: "completed (settle i r j) = completed j"
  by (simp add: settle_def Let_def split: worker_request.splits option.splits)

lemma job_inv_step:
  assumes "job_inv j" and "job_step e j = Some j'"
  shows "job_inv j'"
proof (cases e)
  case (EnvironmentNotification data)
  with assms show ?thesis
    by (auto simp: job_inv_def onEnvironment_def trackPromiseAndNotifyOnCompletion_def
                   notifyUponCompletion_def nth_append split: if_splits)
next
  case (ManagerNotification data)
  with assms show ?thesis
    by (auto simp: job_inv_def onManager_def split: if_splits)
next
  case (Settled i r)
  with assms have j': "j' = settle i r j" and i: "i < length (pendingPromises j)"
    by (auto split: if_splits)
  from assms(1) i show ?thesis
    unfolding j' job_inv_def
    by (cases i) (auto simp: pendingPromises_settle completed_settle list_all_snd_update)
next
  case (AllSettled k)
  with assms show ?thesis
    by (auto simp: job_inv_def all_settled_def Let_def split: if_splits)
next
  case Timeout
  with assms show ?thesis
    by (auto simp: job_inv_def notifyUponCompletion_def split: if_splits)
qed

lemma job_inv_run: "job_inv j \<Longrightarrow> job_run es j = Some j' \<Longrightarrow> job_inv j'"
proof (induction es arbitrary: j)
  case Nil
  then show ?case by simp
next
  case (Cons e es)
  then show ?case
    by (auto split: option.splits intro: job_inv_step)
qed

lemma completion_step:
  assumes "job_step e j = Some j'" and "\<not> completed j" and "completed j'"
  shows "list_all snd (pendingPromises j)
         \<and> (\<exists>k. e = AllSettled k \<and> k < length (waiting j)
                  \<and> waiting j ! k = length (pendingPromises j))"
proof (cases e)
  case (EnvironmentNotification data)
  with assms show ?thesis
    by (auto simp: onEnvironment_def trackPromiseAndNotifyOnCompletion_def
                   notifyUponCompletion_def split: if_splits)
next
  case (ManagerNotification data)
  with assms show ?thesis by (auto simp: onManager_def split: if_splits)
next
  case (Settled i r)
  with assms show ?thesis by (auto simp: completed_settle split: if_splits)
next
  case (AllSettled k)
  with assms show ?thesis
    by (auto simp: all_settled_def Let_def split: if_splits)
next
  case Timeout
  with assms show ?thesis by (auto simp: notifyUponCompletion_def split: if_splits)
qed

lemma recheck_step:
  assumes "job_step (AllSettled k) j = Some j'" and "waiting j ! k \<noteq> length (pendingPromises j)"
  shows "completed j' = completed j \<and> timeouts j' = Suc (timeouts j)"
  using assms by (auto simp: all_settled_def Let_def split: if_splits)

text \<open>
  C2. Let \<open>j\<close> be any state a refresh can reach from its start. If its completion signal
  has fired, no tracked request is outstanding; the first tracked promise is always the
  worker-side \<^verbatim>\<open>refresh\<close> request (the resolve sub-requests are tracked by \<open>onEnvironment\<close>).
  The step that fires the signal is the answer of a \<^verbatim>\<open>Promise.all\<close> whose
  \<^verbatim>\<open>initialCount\<close> equals the number of promises tracked by then, taken in a state where
  every tracked promise has settled. A \<^verbatim>\<open>Promise.all\<close> that answers when more promises
  have been tracked than its \<^verbatim>\<open>initialCount\<close> does not fire the signal: it schedules a
  new check.
\<close>

theorem completion_waits_for_tracked_requests:
  assumes "job_run es doRefresh = Some j"
  shows "(completed j \<longrightarrow> outstanding j = [])
         \<and> fst (pendingPromises j ! 0) = RefreshRequest
         \<and> (\<forall>e j'. job_step e j = Some j' \<and> \<not> completed j \<and> completed j' \<longrightarrow>
               outstanding j = []
               \<and> (\<exists>k. e = AllSettled k \<and> k < length (waiting j)
                        \<and> waiting j ! k = length (pendingPromises j)))
         \<and> (\<forall>k j'. job_step (AllSettled k) j = Some j'
                     \<and> waiting j ! k \<noteq> length (pendingPromises j) \<longrightarrow>
               completed j' = completed j \<and> timeouts j' = Suc (timeouts j))"
proof -
  from job_inv_run [OF job_inv_doRefresh assms] have inv: "job_inv j" .
  then have a: "completed j \<longrightarrow> outstanding j = []"
    and b: "fst (pendingPromises j ! 0) = RefreshRequest"
    by (simp_all add: job_inv_def outstanding_empty)
  have c: "\<forall>e j'. job_step e j = Some j' \<and> \<not> completed j \<and> completed j' \<longrightarrow>
               outstanding j = []
               \<and> (\<exists>k. e = AllSettled k \<and> k < length (waiting j)
                        \<and> waiting j ! k = length (pendingPromises j))"
    unfolding outstanding_empty using completion_step by blast
  have d: "\<forall>k j'. job_step (AllSettled k) j = Some j'
                     \<and> waiting j ! k \<noteq> length (pendingPromises j) \<longrightarrow>
               completed j' = completed j \<and> timeouts j' = Suc (timeouts j)"
    using recheck_step by blast
  from a b c d show ?thesis by blast
qed

theorem completion_waits_for_tracked_requests_witness:
  "job_run [EnvironmentNotification (raw_record (Some ''/a/python'') None None (Some VirtualEnv)),
            Settled 0 None, AllSettled 0, Settled 1 (Some venv_a)] doRefresh
     = Some \<lparr>pendingPromises = [(RefreshRequest, True), (ResolveRequest ''/a/python'', True)],
             waiting = [2], timeouts = 1, completed = False, fired = [Env venv_a]\<rparr>
   \<and> job_step (AllSettled 0)
        \<lparr>pendingPromises = [(RefreshRequest, True), (ResolveRequest ''/a/python'', True)],
         waiting = [2], timeouts = 1, completed = False, fired = [Env venv_a]\<rparr>
     = Some \<lparr>pendingPromises = [(RefreshRequest, True), (ResolveRequest ''/a/python'', True)],
             waiting = [], timeouts = 1, completed = True, fired = [Env venv_a]\<rparr>
   \<and> outstanding \<lparr>pendingPromises = [(RefreshRequest, True), (ResolveRequest ''/a/python'', True)],
         waiting = [2], timeouts = 1, completed = False, fired = [Env venv_a]\<rparr> = []
   \<and> job_run [EnvironmentNotification (raw_record (Some ''/a/python'') None None (Some VirtualEnv)),
            Settled 0 None] doRefresh
     = Some \<lparr>pendingPromises = [(RefreshRequest, True), (ResolveRequest ''/a/python'', False)],
             waiting = [1, 2], timeouts = 0, completed = False, fired = []\<rparr>
   \<and> job_step (AllSettled 0)
        \<lparr>pendingPromises = [(RefreshRequest, True), (ResolveRequest ''/a/python'', False)],
         waiting = [1, 2], timeouts = 0, completed = False, fired = []\<rparr>
     = Some \<lparr>pendingPromises = [(RefreshRequest, True), (ResolveRequest ''/a/python'', False)],
             waiting = [2], timeouts = 1, completed = False, fired = []\<rparr>"
  (is "?r1 \<and> ?s1 \<and> ?o1 \<and> ?r2 \<and> ?s2")
proof -
  have r1: ?r1 by code_simp
  have s1: ?s1 by code_simp
  have r2: ?r2 by code_simp
  have s2: ?s2 by code_simp
  let ?J = "\<lparr>pendingPromises = [(RefreshRequest, True), (ResolveRequest ''/a/python'', True)],
         waiting = [2], timeouts = 1, completed = False, fired = [Env venv_a]\<rparr>"
  let ?J' = "\<lparr>pendingPromises = [(RefreshRequest, True), (ResolveRequest ''/a/python'', True)],
             waiting = [], timeouts = 1, completed = True, fired = [Env venv_a]\<rparr>"
  have n: "\<not> completed ?J" and c: "completed ?J'" by simp_all
  from completion_waits_for_tracked_requests [OF r1]
  have "job_step (AllSettled 0) ?J = Some ?J' \<and> \<not> completed ?J \<and> completed ?J' \<longrightarrow> outstanding ?J = []"
    by blast
  with s1 n c have o1: ?o1 by blast
  from r1 s1 o1 r2 s2 show ?thesis by blast
qed

section \<open>Properties of a refresh of the collection\<close>

lemma triggerRefresh_started:
  "refreshState s = discoveryStarted \<Longrightarrow> refreshPromise s = Some p \<Longrightarrow>
     triggerRefresh s = (p, s\<lparr>trace := trace s @ [RefreshStarted]\<rparr>)"
  by (simp add: triggerRefresh_def)

lemma triggerRefresh_state:
  "refreshState (snd (triggerRefresh s)) = discoveryStarted
   \<and> refreshPromise (snd (triggerRefresh s)) = Some (fst (triggerRefresh s))"
  by (auto simp: triggerRefresh_def Let_def)

lemma triggerRefresh_immediates:
  "immediates (snd (triggerRefresh s)) =
     (if refreshState s = discoveryStarted \<and> refreshPromise s \<noteq> None then immediates s
      else Suc (immediates s))"
  by (simp add: triggerRefresh_def Let_def)

lemma refresh_requests_configure: "refresh_requests (configure opts f) = refresh_requests f"
  by (simp add: configure_def refresh_requests_def)

lemma refresh_requests_doRefresh:
  "refresh_requests (doRefresh_requests opts f) = Suc (refresh_requests f)"
proof -
  have "requests (doRefresh_requests opts f) = requests (configure opts f) @ [RefreshRequest]"
    by (simp add: doRefresh_requests_def Let_def)
  then show ?thesis
    using refresh_requests_configure [of opts f] by (simp add: refresh_requests_def)
qed

lemma refresh_requests_finder_refresh:
  "refresh_requests (finder_refresh opts f) =
     (if firstRefreshResults f then refresh_requests f else Suc (refresh_requests f))"
  by (simp add: finder_refresh_def refresh_requests_doRefresh) (simp add: refresh_requests_def)

lemma refresh_requests_new_finder: "refresh_requests (new_finder opts) = 1"
proof -
  have "refresh_requests connected = 0"
    by (simp add: refresh_requests_def connected_def)
  then have "refresh_requests (doRefresh_requests opts (configure opts connected)) = 1"
    by (simp add: refresh_requests_doRefresh refresh_requests_configure)
  then show ?thesis
    by (simp add: new_finder_def Let_def refresh_requests_def)
qed

text \<open>
  C3. A \<^verbatim>\<open>triggerRefresh\<close> call made while the state is \<^verbatim>\<open>discoveryStarted\<close> and the
  refresh promise is set returns that promise and changes nothing but the trace: it queues
  no callback, so no \<^verbatim>\<open>finder.refresh()\<close> and no worker-side request comes from it.
  Hence of two calls in a row, from any state, the second returns the promise of the first
  and queues nothing. When no refresh was in progress and no callback was queued before,
  the two calls leave one callback; running it empties the queue and sends one worker-side
  \<^verbatim>\<open>refresh\<close> request, or none when it takes over the scan that the finder's constructor
  started; when the loop ends, the one promise both callers hold is resolved.
\<close>

theorem triggerRefresh_single_flight:
  "(\<forall>p. refreshState s = discoveryStarted \<and> refreshPromise s = Some p \<longrightarrow>
        triggerRefresh s = (p, s\<lparr>trace := trace s @ [RefreshStarted]\<rparr>))
   \<and> fst (triggerRefresh (snd (triggerRefresh s))) = fst (triggerRefresh s)
   \<and> immediates (snd (triggerRefresh (snd (triggerRefresh s)))) = immediates (snd (triggerRefresh s))
   \<and> (immediates s = 0 \<and> \<not> (refreshState s = discoveryStarted \<and> refreshPromise s \<noteq> None) \<longrightarrow>
        immediates (snd (triggerRefresh (snd (triggerRefresh s)))) = 1
        \<and> run_immediate opts (snd (triggerRefresh (snd (triggerRefresh s))), f)
            = Some ((snd (triggerRefresh (snd (triggerRefresh s))))\<lparr>immediates := 0\<rparr>, finder_refresh opts f)
        \<and> run_immediate opts ((snd (triggerRefresh (snd (triggerRefresh s))))\<lparr>immediates := 0\<rparr>, finder_refresh opts f)
            = None
        \<and> refresh_requests (finder_refresh opts f)
            = (if firstRefreshResults f then refresh_requests f else Suc (refresh_requests f))
        \<and> resolvedPromises (refreshDone (snd (triggerRefresh (snd (triggerRefresh s)))))
            = resolvedPromises s @ [fst (triggerRefresh s)])"
proof -
  let ?s1 = "snd (triggerRefresh s)"
  let ?p1 = "fst (triggerRefresh s)"
  have st: "refreshState ?s1 = discoveryStarted" and pr: "refreshPromise ?s1 = Some ?p1"
    using triggerRefresh_state [of s] by simp_all
  have second: "triggerRefresh ?s1 = (?p1, ?s1\<lparr>trace := trace ?s1 @ [RefreshStarted]\<rparr>)"
    using st pr by (rule triggerRefresh_started)
  have a: "\<forall>p. refreshState s = discoveryStarted \<and> refreshPromise s = Some p \<longrightarrow>
        triggerRefresh s = (p, s\<lparr>trace := trace s @ [RefreshStarted]\<rparr>)"
    by (simp add: triggerRefresh_started)
  have b: "fst (triggerRefresh ?s1) = ?p1"
    by (simp add: second)
  have c: "immediates (snd (triggerRefresh ?s1)) = immediates ?s1"
    by (simp add: second)
  have d: "immediates s = 0 \<and> \<not> (refreshState s = discoveryStarted \<and> refreshPromise s \<noteq> None) \<longrightarrow>
        immediates (snd (triggerRefresh ?s1)) = 1
        \<and> run_immediate opts (snd (triggerRefresh ?s1), f)
            = Some ((snd (triggerRefresh ?s1))\<lparr>immediates := 0\<rparr>, finder_refresh opts f)
        \<and> run_immediate opts ((snd (triggerRefresh ?s1))\<lparr>immediates := 0\<rparr>, finder_refresh opts f) = None
        \<and> refresh_requests (finder_refresh opts f)
            = (if firstRefreshResults f then refresh_requests f else Suc (refresh_requests f))
        \<and> resolvedPromises (refreshDone (snd (triggerRefresh ?s1))) = resolvedPromises s @ [?p1]"
  proof
    assume h: "immediates s = 0 \<and> \<not> (refreshState s = discoveryStarted \<and> refreshPromise s \<noteq> None)"
    then have i: "immediates ?s1 = 1"
      by (simp add: triggerRefresh_immediates)
    from h have r: "resolvedPromises ?s1 = resolvedPromises s"
      by (auto simp: triggerRefresh_def Let_def)
    have i2: "immediates (snd (triggerRefresh ?s1)) = 1"
      using c i by simp
    have d1: "run_immediate opts (snd (triggerRefresh ?s1), f)
            = Some ((snd (triggerRefresh ?s1))\<lparr>immediates := 0\<rparr>, finder_refresh opts f)"
      using i2 by (simp add: run_immediate_def)
    have d2: "run_immediate opts ((snd (triggerRefresh ?s1))\<lparr>immediates := 0\<rparr>, finder_refresh opts f) = None"
      by (simp add: run_immediate_def)
    have d3: "resolvedPromises (refreshDone (snd (triggerRefresh ?s1))) = resolvedPromises s @ [?p1]"
      using pr r by (simp add: second refreshDone_def refreshFinally_def Let_def)
    from i2 d1 d2 d3 refresh_requests_finder_refresh [of opts f]
    show "immediates (snd (triggerRefresh ?s1)) = 1
        \<and> run_immediate opts (snd (triggerRefresh ?s1), f)
            = Some ((snd (triggerRefresh ?s1))\<lparr>immediates := 0\<rparr>, finder_refresh opts f)
        \<and> run_immediate opts ((snd (triggerRefresh ?s1))\<lparr>immediates := 0\<rparr>, finder_refresh opts f) = None
        \<and> refresh_requests (finder_refresh opts f)
            = (if firstRefreshResults f then refresh_requests f else Suc (refresh_requests f))
        \<and> resolvedPromises (refreshDone (snd (triggerRefresh ?s1))) = resolvedPromises s @ [?p1]"
      by blast
  qed
  from a b c d show ?thesis by blast
qed

theorem triggerRefresh_single_flight_witness:
  "immediates new_state = 0
   \<and> \<not> (refreshState new_state = discoveryStarted \<and> refreshPromise new_state \<noteq> None)
   \<and> fst (triggerRefresh new_state) = 0
   \<and> fst (triggerRefresh (snd (triggerRefresh new_state))) = 0
   \<and> immediates (snd (triggerRefresh (snd (triggerRefresh new_state)))) = 1
   \<and> refresh_requests (new_finder example_options) = 1
   \<and> refresh_requests (finder_refresh example_options (new_finder example_options)) = 1
   \<and> refresh_requests
        (finder_refresh example_options (finder_refresh example_options (new_finder example_options))) = 2
   \<and> resolvedPromises (refreshDone (snd (triggerRefresh (snd (triggerRefresh new_state))))) = [0]"
  (is "?h1 \<and> ?h2 \<and> ?p1 \<and> ?p2 \<and> ?i \<and> ?r0 \<and> ?r1 \<and> ?r2 \<and> ?d")
proof -
  have h1: ?h1 and h2: ?h2 and p1: ?p1 by code_simp+
  have r0: ?r0 and r1: ?r1 and r2: ?r2 by code_simp+
  have rp: "resolvedPromises new_state = []" by code_simp
  note inst = triggerRefresh_single_flight [of new_state example_options "new_finder example_options"]
  from inst p1 have p2: ?p2 by simp
  from inst h1 h2 have i: ?i by blast
  from inst h1 h2 have "resolvedPromises (refreshDone (snd (triggerRefresh (snd (triggerRefresh new_state)))))
            = resolvedPromises new_state @ [fst (triggerRefresh new_state)]"
    by blast
  with rp p1 have d: ?d by simp
  from h1 h2 p1 p2 i r0 r1 r2 d show ?thesis by blast
qed

lemma resolveCalls_addEnv: "resolveCalls (addEnv h n s) = resolveCalls s"
  by (simp add: addEnv_def validEnv_trace_def traceError_def array_new_def array_push_def Let_def
           split: option.splits)

lemma validEnv_trace_valid: "validEnv n \<Longrightarrow> validEnv_trace n s = s"
  by (simp add: validEnv_trace_def)



lemma onEnvironment_no_executable:
  assumes "\<not> truthy (executable data)"
  shows "onEnvironment data j = j\<lparr>fired := fired j @ [Env data]\<rparr>"
  using assms by (simp add: onEnvironment_def)




lemma refreshLoopBody_conda:
  assumes "kind native = Some Conda" and "prefix native = Some p" and "\<not> truthy (executable native)"
  shows "refreshLoopBody h (Env native) s = addEnv h native s"
proof -
  from assms(2) have v: "validEnv native" by (simp add: validEnv_def)
  from assms(1) have k: "categoryToKind (kind native) = KindConda"
    by (simp add: categoryToKind_def mapping_def)
  from v k assms(3) show ?thesis
    by (simp add: refreshLoopBody_def isNativeInfoEnvironment_def asNativeEnvInfo_def
                  validEnv_trace_valid Let_def)
qed

lemma toPythonEnvInfo_conda:
  assumes "kind native = Some Conda" and "prefix native = Some p" and "\<not> truthy (executable native)"
  shows "\<exists>info. toPythonEnvInfo h native = Some info \<and> info_kind info = KindConda
           \<and> info_type info = Some TypeConda \<and> info_location info = p"
proof -
  from assms(2) have v: "validEnv native" by (simp add: validEnv_def)
  from assms(1) have k: "categoryToKind (kind native) = KindConda"
    by (simp add: categoryToKind_def mapping_def)
  from assms(2,3) have l: "getLocation native = p"
    by (auto simp: getLocation_def truthy_def)
  from v k l show ?thesis
    by (simp add: toPythonEnvInfo_def Let_def)
qed

text \<open>
  C6. A conda record with a prefix and no executable: the finder emits it as it is and
  tracks no request for it; the refresh loop gives it to \<^verbatim>\<open>addEnv\<close> as it is and calls
  \<^verbatim>\<open>finder.resolve\<close> for nothing; it normalizes to an entry of kind and type Conda whose
  location is the prefix, and that entry is in the collection afterwards.
\<close>

theorem conda_without_executable_added_as_is:
  assumes "kind data = Some Conda" and "prefix data = Some p" and "\<not> truthy (executable data)"
  shows "onEnvironment data j = j\<lparr>fired := fired j @ [Env data]\<rparr>
         \<and> pendingPromises (onEnvironment data j) = pendingPromises j
         \<and> refreshLoopBody h (Env data) s = addEnv h data s
         \<and> resolveCalls (refreshLoopBody h (Env data) s) = resolveCalls s
         \<and> (\<exists>info. toPythonEnvInfo h data = Some info
                \<and> info_kind info = KindConda
                \<and> info_type info = Some TypeConda
                \<and> info_location info = p
                \<and> lookup (key info) (envs (refreshLoopBody h (Env data) s)) = Some info)"
proof -
  have o: "onEnvironment data j = j\<lparr>fired := fired j @ [Env data]\<rparr>"
    using assms(3) by (rule onEnvironment_no_executable)
  have l: "refreshLoopBody h (Env data) s = addEnv h data s"
    using assms by (rule refreshLoopBody_conda)
  from toPythonEnvInfo_conda [OF assms, of h] obtain info where
    i: "toPythonEnvInfo h data = Some info" "info_kind info = KindConda"
       "info_type info = Some TypeConda" "info_location info = p"
    by blast
  have "lookup (key info) (envs (addEnv h data s)) = Some info"
    by (simp add: envs_addEnv i(1) lookup_replace)
  with i l have e: "\<exists>info. toPythonEnvInfo h data = Some info
                \<and> info_kind info = KindConda
                \<and> info_type info = Some TypeConda
                \<and> info_location info = p
                \<and> lookup (key info) (envs (refreshLoopBody h (Env data) s)) = Some info"
    by auto
  from o l e show ?thesis
    by (simp add: resolveCalls_addEnv)
qed

theorem conda_without_executable_added_as_is_witness:
  "kind conda_foo = Some Conda
   \<and> prefix conda_foo = Some ''/opt/conda/envs/foo''
   \<and> \<not> truthy (executable conda_foo)
   \<and> onEnvironment conda_foo doRefresh = doRefresh\<lparr>fired := fired doRefresh @ [Env conda_foo]\<rparr>
   \<and> refreshLoopBody example_host (Env conda_foo) two_envs = addEnv example_host conda_foo two_envs
   \<and> resolveCalls (refreshLoopBody example_host (Env conda_foo) two_envs) = resolveCalls two_envs
   \<and> info_type (the (toPythonEnvInfo example_host conda_foo)) = Some TypeConda
   \<and> info_location (the (toPythonEnvInfo example_host conda_foo)) = ''/opt/conda/envs/foo''
   \<and> envs (addEnv example_host conda_foo two_envs)
       = envs two_envs @ [the (toPythonEnvInfo example_host conda_foo)]"
  (is "?k \<and> ?p \<and> ?e \<and> ?o \<and> ?l \<and> ?r \<and> ?t \<and> ?c \<and> ?a")
proof -
  have k: ?k and p: ?p and e: ?e by code_simp+
  have t: ?t and c: ?c and a: ?a by code_simp+
  from conda_without_executable_added_as_is [OF k p e, of doRefresh example_host two_envs]
  have o: ?o and l: ?l and r: ?r by blast+
  from k p e o l r t c a show ?thesis by blast
qed

section \<open>Properties of \<open>resolveEnv\<close> behind its cache\<close>

lemma resolveEnv_body_merge:
  assumes "resolveEnv h p r s = (Fulfilled (Some env), s')"
  shows "(\<forall>old. lookup (key env) (envs s) = Some old \<longrightarrow>
            envs s' = filter (\<lambda>item. key item \<noteq> key env) (envs s) @ [env]
            \<and> lookup (key env) (envs s') = Some env
            \<and> onChanged s' = onChanged s @ [Changed old env])
         \<and> (lookup (key env) (envs s) = None \<longrightarrow> s' = s)"
proof -
  from assms have f: "fst (resolveEnv h p r s) = Fulfilled (Some env)"
    and s': "s' = snd (resolveEnv h p r s)"
    by simp_all
  from f have res: "resolved h p r = Some env"
    by (auto simp: resolveEnv_result split: outcome.splits option.splits)
  show ?thesis
    unfolding s'
    by (simp add: res envs_resolveEnv onChanged_resolveEnv lookup_replace
                  resolveEnv_absent_unchanged)
qed

lemma resolveEnv_cached_hit:
  assumes "cache_hit c now p"
  shows "snd (resolveEnv_cached h now p r (c, s)) = (c, s)"
  using assms by (auto simp: resolveEnv_cached_def cache_hit_def split: option.splits)

lemma resolveEnv_cached_miss:
  assumes "\<not> cache_hit c now p"
  shows "fst (resolveEnv_cached h now p r (c, s)) = fst (resolveEnv h p r s)"
    and "snd (snd (resolveEnv_cached h now p r (c, s))) = snd (resolveEnv h p r s)"
    and "cache_hit (fst (snd (resolveEnv_cached h now p r (c, s)))) now p"
    and "fst (snd (resolveEnv_cached h now p r (c, s))) p = Some (now + 30000, fst (resolveEnv h p r s))"
  using assms by (simp_all add: resolveEnv_cached_def cache_hit_def split: prod.splits)

text \<open>
  C7, as stated, fails: on a new collection and with nothing cached,
  \<^verbatim>\<open>resolveEnv("/a/python")\<close>, answered by the worker with the record \<open>venv_a\<close>, returns
  the normalized environment and leaves the collection empty.
\<close>

theorem resolveEnv_absent_counterexample:
  "fst (resolveEnv example_host (Some ''/a/python'') (Fulfilled (Some venv_a)) new_state)
     = Fulfilled (Some (the (toPythonEnvInfo example_host venv_a)))
   \<and> envs (snd (resolveEnv example_host (Some ''/a/python'') (Fulfilled (Some venv_a)) new_state)) = []
   \<and> onChanged (snd (resolveEnv example_host (Some ''/a/python'') (Fulfilled (Some venv_a)) new_state)) = []
   \<and> fst (resolveEnv_cached example_host 0 (Some ''/a/python'') (Fulfilled (Some venv_a))
             (Map.empty, new_state))
     = Fulfilled (Some (the (toPythonEnvInfo example_host venv_a)))
   \<and> envs (snd (snd (resolveEnv_cached example_host 0 (Some ''/a/python'') (Fulfilled (Some venv_a))
                         (Map.empty, new_state)))) = []"
  by code_simp

text \<open>
  C7, amended. If a call of \<^verbatim>\<open>resolveEnv(p)\<close> returns a defined normalized environment
  \<open>env\<close>, then: when the call is answered from the 30-second cache, the collection and the
  cache are left as they were and no event is fired; when the call runs the method: if the
  collection had an entry \<open>old\<close> for the executable path of \<open>env\<close>, that entry is replaced
  by \<open>env\<close> (which is then the entry for that path) and \<open>Changed old env\<close> is fired; if it
  had none, the state is left as it was: \<open>env\<close> is returned but not added, and no event is
  fired.
\<close>

theorem resolveEnv_merges_into_existing_entry:
  assumes "resolveEnv_cached h now p r (c, s) = (Fulfilled (Some env), c', s')"
  shows "(cache_hit c now p \<longrightarrow> s' = s \<and> c' = c)
         \<and> (\<not> cache_hit c now p \<longrightarrow>
              (\<forall>old. lookup (key env) (envs s) = Some old \<longrightarrow>
                 envs s' = filter (\<lambda>item. key item \<noteq> key env) (envs s) @ [env]
                 \<and> lookup (key env) (envs s') = Some env
                 \<and> onChanged s' = onChanged s @ [Changed old env])
              \<and> (lookup (key env) (envs s) = None \<longrightarrow> s' = s))"
proof (cases "cache_hit c now p")
  case True
  from resolveEnv_cached_hit [OF True, of h r s] assms show ?thesis
    using True by simp
next
  case False
  from resolveEnv_cached_miss(1,2) [OF False, of h r s] assms
  have "resolveEnv h p r s = (Fulfilled (Some env), s')"
    by (simp add: prod_eq_iff)
  from resolveEnv_body_merge [OF this] False show ?thesis
    by blast
qed

theorem resolveEnv_merges_into_existing_entry_witness:
  "\<not> cache_hit Map.empty 0 (Some ''/a/python'')
   \<and> fst (resolveEnv_cached example_host 0 (Some ''/a/python'') (Fulfilled (Some venv_a_again))
             (Map.empty, two_envs))
       = Fulfilled (Some (the (toPythonEnvInfo example_host venv_a_again)))
   \<and> lookup (key (the (toPythonEnvInfo example_host venv_a_again))) (envs two_envs)
       = Some (the (toPythonEnvInfo example_host venv_a))
   \<and> lookup (key (the (toPythonEnvInfo example_host venv_a_again)))
        (envs (snd (snd (resolveEnv_cached example_host 0 (Some ''/a/python'')
                           (Fulfilled (Some venv_a_again)) (Map.empty, two_envs)))))
       = Some (the (toPythonEnvInfo example_host venv_a_again))
   \<and> onChanged (snd (snd (resolveEnv_cached example_host 0 (Some ''/a/python'')
                             (Fulfilled (Some venv_a_again)) (Map.empty, two_envs))))
       = onChanged two_envs
         @ [Changed (the (toPythonEnvInfo example_host venv_a)) (the (toPythonEnvInfo example_host venv_a_again))]
   \<and> \<not> cache_hit Map.empty 0 (Some ''/c/python'')
   \<and> fst (resolveEnv_cached example_host 0 (Some ''/c/python'')
             (Fulfilled (Some (raw_record (Some ''/c/python'') None None None))) (Map.empty, two_envs))
       = Fulfilled (Some (the (toPythonEnvInfo example_host (raw_record (Some ''/c/python'') None None None))))
   \<and> lookup (key (the (toPythonEnvInfo example_host (raw_record (Some ''/c/python'') None None None))))
        (envs two_envs) = None
   \<and> snd (snd (resolveEnv_cached example_host 0 (Some ''/c/python'')
                   (Fulfilled (Some (raw_record (Some ''/c/python'') None None None))) (Map.empty, two_envs)))
       = two_envs
   \<and> cache_hit (Map.empty(Some ''/a/python'' \<mapsto> (30000, Fulfilled (Some (the (toPythonEnvInfo example_host venv_a))))))
        1000 (Some ''/a/python'')
   \<and> fst (resolveEnv_cached example_host 1000 (Some ''/a/python'') (Fulfilled (Some venv_a_again))
             (Map.empty(Some ''/a/python'' \<mapsto> (30000, Fulfilled (Some (the (toPythonEnvInfo example_host venv_a))))),
              two_envs))
       = Fulfilled (Some (the (toPythonEnvInfo example_host venv_a)))
   \<and> snd (snd (resolveEnv_cached example_host 1000 (Some ''/a/python'') (Fulfilled (Some venv_a_again))
             (Map.empty(Some ''/a/python'' \<mapsto> (30000, Fulfilled (Some (the (toPythonEnvInfo example_host venv_a))))),
              two_envs)))
       = two_envs"
  (is "?m1 \<and> ?r1 \<and> ?l1 \<and> ?a1 \<and> ?c1 \<and> ?m2 \<and> ?r2 \<and> ?l2 \<and> ?u2 \<and> ?m3 \<and> ?r3 \<and> ?u3")
proof -
  let ?R1 = "resolveEnv_cached example_host 0 (Some ''/a/python'') (Fulfilled (Some venv_a_again))
             (Map.empty, two_envs)"
  let ?R2 = "resolveEnv_cached example_host 0 (Some ''/c/python'')
             (Fulfilled (Some (raw_record (Some ''/c/python'') None None None))) (Map.empty, two_envs)"
  let ?R3 = "resolveEnv_cached example_host 1000 (Some ''/a/python'') (Fulfilled (Some venv_a_again))
             (Map.empty(Some ''/a/python'' \<mapsto> (30000, Fulfilled (Some (the (toPythonEnvInfo example_host venv_a))))),
              two_envs)"
  have m1: ?m1 and m2: ?m2 and m3: ?m3 by code_simp+
  have r1: ?r1 and r2: ?r2 and r3: ?r3 by code_simp+
  have l1: ?l1 and l2: ?l2 by code_simp+
  from r1 have e1: "?R1 = (Fulfilled (Some (the (toPythonEnvInfo example_host venv_a_again))),
                           fst (snd ?R1), snd (snd ?R1))"
    by (simp add: prod_eq_iff)
  from r2 have e2: "?R2 = (Fulfilled (Some (the (toPythonEnvInfo example_host (raw_record (Some ''/c/python'') None None None)))),
                           fst (snd ?R2), snd (snd ?R2))"
    by (simp add: prod_eq_iff)
  from r3 have e3: "?R3 = (Fulfilled (Some (the (toPythonEnvInfo example_host venv_a))),
                           fst (snd ?R3), snd (snd ?R3))"
    by (simp add: prod_eq_iff)
  from resolveEnv_merges_into_existing_entry [OF e1] m1 l1 have a1: ?a1 and c1: ?c1 by blast+
  from resolveEnv_merges_into_existing_entry [OF e2] m2 l2 have u2: ?u2 by blast
  from resolveEnv_merges_into_existing_entry [OF e3] m3 have u3: ?u3 by blast
  from m1 r1 l1 a1 c1 m2 r2 l2 u2 m3 r3 u3 show ?thesis by blast
qed

section \<open>Properties of the array behind \<open>getEnvs\<close>\<close>

lemma envs_ref_addEnv:
  "envs_ref (addEnv h n s) =
     (case toPythonEnvInfo h n of
        None \<Rightarrow> envs_ref s
      | Some info \<Rightarrow> (case lookup (key info) (envs s) of None \<Rightarrow> envs_ref s | Some old \<Rightarrow> next_ref s))"
proof (cases "toPythonEnvInfo h n")
  case None
  then show ?thesis by (simp add: addEnv_def validEnv_trace_def traceError_def)
next
  case (Some info)
  then have v: "validEnv_trace n s = s"
    by (simp add: validEnv_trace_def toPythonEnvInfo_valid)
  from Some v show ?thesis
    by (simp add: addEnv_def find_same_file envs_def [symmetric] array_new_def array_push_def
             split: option.splits)
qed

lemma next_ref_addEnv:
  "next_ref (addEnv h n s) =
     (case toPythonEnvInfo h n of
        None \<Rightarrow> next_ref s
      | Some info \<Rightarrow>
          (case lookup (key info) (envs s) of None \<Rightarrow> next_ref s | Some old \<Rightarrow> Suc (next_ref s)))"
proof (cases "toPythonEnvInfo h n")
  case None
  then show ?thesis by (simp add: addEnv_def validEnv_trace_def traceError_def)
next
  case (Some info)
  then have v: "validEnv_trace n s = s"
    by (simp add: validEnv_trace_def toPythonEnvInfo_valid)
  from Some v show ?thesis
    by (simp add: addEnv_def find_same_file envs_def [symmetric] array_new_def array_push_def
             split: option.splits)
qed

lemma store_addEnv_append:
  assumes "toPythonEnvInfo h n = Some info" and "lookup (key info) (envs s) = None"
  shows "store (addEnv h n s) (envs_ref s) = envs s @ [info]"
proof -
  from assms(1) have v: "validEnv_trace n s = s"
    by (simp add: validEnv_trace_def toPythonEnvInfo_valid)
  from assms v show ?thesis
    by (simp add: addEnv_def find_same_file envs_def [symmetric] array_push_def)
qed

lemma store_addEnv_replace:
  assumes "toPythonEnvInfo h n = Some info" and "lookup (key info) (envs s) = Some old"
    and "envs_ref s < next_ref s"
  shows "store (addEnv h n s) (envs_ref s) = envs s"
proof -
  from assms(1) have v: "validEnv_trace n s = s"
    by (simp add: validEnv_trace_def toPythonEnvInfo_valid)
  from assms v show ?thesis
    by (simp add: addEnv_def find_same_file envs_def [symmetric] array_new_def array_push_def)
qed

lemma envs_ref_resolveEnv:
  "envs_ref (snd (resolveEnv h p r s)) =
     (case resolved h p r of
        None \<Rightarrow> envs_ref s
      | Some env \<Rightarrow> (case lookup (key env) (envs s) of None \<Rightarrow> envs_ref s | Some old \<Rightarrow> next_ref s))"
proof (cases "resolved h p r")
  case None
  then show ?thesis
    by (auto simp: resolveEnv_def resolved_def validEnv_trace_def traceError_def
             split: option.splits outcome.splits)
next
  case (Some env)
  then obtain q native where pr: "p = Some q" "r = Fulfilled (Some native)"
    and t: "toPythonEnvInfo h native = Some env"
    by (auto simp: resolved_def split: option.splits outcome.splits)
  then have v: "validEnv_trace native s = s"
    by (simp add: validEnv_trace_def toPythonEnvInfo_valid)
  from Some pr t v show ?thesis
    by (simp add: resolveEnv_def find_same_file envs_def [symmetric] array_new_def array_push_def
             split: option.splits)
qed

lemma next_ref_resolveEnv:
  "next_ref (snd (resolveEnv h p r s)) =
     (case resolved h p r of
        None \<Rightarrow> next_ref s
      | Some env \<Rightarrow>
          (case lookup (key env) (envs s) of None \<Rightarrow> next_ref s | Some old \<Rightarrow> Suc (next_ref s)))"
proof (cases "resolved h p r")
  case None
  then show ?thesis
    by (auto simp: resolveEnv_def resolved_def validEnv_trace_def traceError_def
             split: option.splits outcome.splits)
next
  case (Some env)
  then obtain q native where pr: "p = Some q" "r = Fulfilled (Some native)"
    and t: "toPythonEnvInfo h native = Some env"
    by (auto simp: resolved_def split: option.splits outcome.splits)
  then have v: "validEnv_trace native s = s"
    by (simp add: validEnv_trace_def toPythonEnvInfo_valid)
  from Some pr t v show ?thesis
    by (simp add: resolveEnv_def find_same_file envs_def [symmetric] array_new_def array_push_def
             split: option.splits)
qed

lemma store_resolveEnv_replace:
  assumes "resolved h p r = Some env" and "lookup (key env) (envs s) = Some old"
    and "envs_ref s < next_ref s"
  shows "store (snd (resolveEnv h p r s)) (envs_ref s) = envs s"
proof -
  from assms(1) obtain q native where pr: "p = Some q" "r = Fulfilled (Some native)"
    and t: "toPythonEnvInfo h native = Some env"
    by (auto simp: resolved_def split: option.splits outcome.splits)
  then have v: "validEnv_trace native s = s"
    by (simp add: validEnv_trace_def toPythonEnvInfo_valid)
  from assms pr t v show ?thesis
    by (simp add: resolveEnv_def find_same_file envs_def [symmetric] array_new_def array_push_def)
qed

lemma refs_perform: "envs_ref s < next_ref s \<Longrightarrow> envs_ref (perform h s op) < next_ref (perform h s op)"
  by (cases op)
     (auto simp: envs_ref_addEnv next_ref_addEnv envs_ref_resolveEnv next_ref_resolveEnv
           split: option.splits)

lemma refs_foldl: "envs_ref s < next_ref s \<Longrightarrow> envs_ref (foldl (perform h) s ops) < next_ref (foldl (perform h) s ops)"
  by (induction ops arbitrary: s) (auto simp: refs_perform)

lemma refs_run: "envs_ref (run h ops new_state) < next_ref (run h ops new_state)"
  unfolding run_def by (rule refs_foldl) (simp add: new_state_def)

lemma envs_caller_writes:
  "envs (caller_writes r xs t) = (if envs_ref t = r then xs else envs t)"
  by (simp add: envs_def caller_writes_def)


text \<open>
  C10, as stated, fails: \<^verbatim>\<open>getEnvs\<close> hands out the internal array, so a caller that
  empties the array it was given empties the collection seen by the next \<^verbatim>\<open>getEnvs\<close>.
\<close>

theorem getEnvs_caller_mutation_counterexample:
  "length (store two_envs (getEnvs two_envs)) = 2
   \<and> store (caller_writes (getEnvs two_envs) [] two_envs)
        (getEnvs (caller_writes (getEnvs two_envs) [] two_envs)) = []
   \<and> envs (caller_writes (getEnvs two_envs) [] two_envs) \<noteq> envs two_envs"
  by code_simp

text \<open>
  C10, amended. \<^verbatim>\<open>getEnvs\<close> returns the internal array itself, not a copy: what it
  returns holds the internal list of environments at the time of the call. Let \<open>r\<close> be an
  array the caller holds and \<open>t\<close> the state in which the caller mutates it. If \<^verbatim>\<open>_envs\<close>
  still refers to \<open>r\<close>, a later \<^verbatim>\<open>getEnvs\<close> returns \<open>r\<close> with the caller's contents, and
  a later \<^verbatim>\<open>addEnv\<close> or \<^verbatim>\<open>resolveEnv\<close> works on the caller's contents. If \<^verbatim>\<open>_envs\<close> refers
  to another array, the mutation changes nothing that \<^verbatim>\<open>getEnvs\<close>, \<^verbatim>\<open>addEnv\<close> or
  \<^verbatim>\<open>resolveEnv\<close> observe. In a state \<open>s\<close> reached by \<^verbatim>\<open>addEnv\<close> and \<^verbatim>\<open>resolveEnv\<close>
  operations on a new collection: an \<^verbatim>\<open>addEnv\<close> that appends keeps \<^verbatim>\<open>_envs\<close> on the array
  handed out in \<open>s\<close> and its new entry shows in that array; an \<^verbatim>\<open>addEnv\<close> or \<^verbatim>\<open>resolveEnv\<close>
  that replaces an entry makes \<^verbatim>\<open>_envs\<close> refer to a new array and leaves the array handed
  out in \<open>s\<close> with its old contents.
\<close>

theorem getEnvs_returns_internal_array:
  fixes h :: host and ops :: "operation list"
  defines "s \<equiv> run h ops new_state"
  shows "store t (getEnvs t) = envs t
   \<and> (getEnvs t = r \<longrightarrow>
        getEnvs (caller_writes r xs t) = r
        \<and> store (caller_writes r xs t) (getEnvs (caller_writes r xs t)) = xs
        \<and> envs (addEnv h n (caller_writes r xs t))
            = (case toPythonEnvInfo h n of
                 None \<Rightarrow> xs
               | Some info \<Rightarrow> filter (\<lambda>item. key item \<noteq> key info) xs @ [info])
        \<and> envs (snd (resolveEnv h p q (caller_writes r xs t)))
            = (case resolved h p q of
                 None \<Rightarrow> xs
               | Some env \<Rightarrow>
                   (case lookup (key env) xs of
                      None \<Rightarrow> xs
                    | Some old \<Rightarrow> filter (\<lambda>item. key item \<noteq> key env) xs @ [env])))
   \<and> (getEnvs t \<noteq> r \<longrightarrow>
        getEnvs (caller_writes r xs t) = getEnvs t
        \<and> store (caller_writes r xs t) (getEnvs (caller_writes r xs t)) = envs t
        \<and> envs (addEnv h n (caller_writes r xs t)) = envs (addEnv h n t)
        \<and> envs (snd (resolveEnv h p q (caller_writes r xs t))) = envs (snd (resolveEnv h p q t)))
   \<and> (\<forall>m info. toPythonEnvInfo h m = Some info \<longrightarrow>
        (lookup (key info) (envs s) = None \<longrightarrow>
           getEnvs (addEnv h m s) = getEnvs s
           \<and> store (addEnv h m s) (getEnvs s) = envs s @ [info])
        \<and> (lookup (key info) (envs s) \<noteq> None \<longrightarrow>
           getEnvs (addEnv h m s) \<noteq> getEnvs s
           \<and> store (addEnv h m s) (getEnvs s) = envs s))
   \<and> (\<forall>p' q' env. resolved h p' q' = Some env \<and> lookup (key env) (envs s) \<noteq> None \<longrightarrow>
        getEnvs (snd (resolveEnv h p' q' s)) \<noteq> getEnvs s
        \<and> store (snd (resolveEnv h p' q' s)) (getEnvs s) = envs s)"
  (is "?a \<and> (?hb \<longrightarrow> ?b) \<and> (?hc \<longrightarrow> ?c) \<and> ?d \<and> ?e")
proof -
  have a: ?a by (simp add: envs_def getEnvs_def)
  have b: "?hb \<longrightarrow> ?b"
  proof
    assume hb: ?hb
    then have w: "envs (caller_writes r xs t) = xs"
      by (simp add: envs_caller_writes getEnvs_def)
    have g: "getEnvs (caller_writes r xs t) = r"
      using hb by (simp add: getEnvs_def caller_writes_def)
    have c: "store (caller_writes r xs t) (getEnvs (caller_writes r xs t)) = xs"
      using hb by (simp add: getEnvs_def caller_writes_def)
    from g c show ?b
      by (simp add: envs_addEnv envs_resolveEnv w cong: option.case_cong)
  qed
  have c: "?hc \<longrightarrow> ?c"
  proof
    assume hc: ?hc
    then have w: "envs (caller_writes r xs t) = envs t"
      by (simp add: envs_caller_writes getEnvs_def)
    have g: "getEnvs (caller_writes r xs t) = getEnvs t"
      by (simp add: getEnvs_def caller_writes_def)
    have c: "store (caller_writes r xs t) (getEnvs (caller_writes r xs t)) = envs t"
      using hc by (simp add: getEnvs_def caller_writes_def envs_def)
    from g c show ?c
      by (simp add: envs_addEnv envs_resolveEnv w cong: option.case_cong)
  qed
  have refs: "envs_ref s < next_ref s"
    unfolding s_def by (rule refs_run)
  have d: ?d
  proof (intro allI impI conjI)
    fix m info
    assume t: "toPythonEnvInfo h m = Some info" and l: "lookup (key info) (envs s) = None"
    from t l show "getEnvs (addEnv h m s) = getEnvs s"
      by (simp add: getEnvs_def envs_ref_addEnv)
    from t l show "store (addEnv h m s) (getEnvs s) = envs s @ [info]"
      by (simp add: getEnvs_def store_addEnv_append)
  next
    fix m info
    assume t: "toPythonEnvInfo h m = Some info" and l: "lookup (key info) (envs s) \<noteq> None"
    then obtain old where o: "lookup (key info) (envs s) = Some old" by auto
    from t o refs show "getEnvs (addEnv h m s) \<noteq> getEnvs s"
      by (simp add: getEnvs_def envs_ref_addEnv)
    from t o refs show "store (addEnv h m s) (getEnvs s) = envs s"
      by (simp add: getEnvs_def store_addEnv_replace)
  qed
  have e: ?e
  proof (intro allI impI conjI)
    fix p' q' env
    assume "resolved h p' q' = Some env \<and> lookup (key env) (envs s) \<noteq> None"
    then obtain old where t: "resolved h p' q' = Some env"
      and o: "lookup (key env) (envs s) = Some old" by auto
    from t o refs show "getEnvs (snd (resolveEnv h p' q' s)) \<noteq> getEnvs s"
      by (simp add: getEnvs_def envs_ref_resolveEnv)
    from t o refs show "store (snd (resolveEnv h p' q' s)) (getEnvs s) = envs s"
      by (simp add: getEnvs_def store_resolveEnv_replace)
  qed
  from a b c d e show ?thesis by blast
qed

theorem getEnvs_returns_internal_array_witness:
  "store two_envs (getEnvs two_envs) = envs two_envs
   \<and> envs (addEnv example_host venv_a (caller_writes (getEnvs two_envs) [] two_envs))
       = [the (toPythonEnvInfo example_host venv_a)]
   \<and> toPythonEnvInfo example_host venv_a_again = Some (the (toPythonEnvInfo example_host venv_a_again))
   \<and> lookup (key (the (toPythonEnvInfo example_host venv_a_again))) (envs two_envs) \<noteq> None
   \<and> getEnvs (addEnv example_host venv_a_again two_envs) \<noteq> getEnvs two_envs
   \<and> store (addEnv example_host venv_a_again two_envs) (getEnvs two_envs) = envs two_envs
   \<and> store (caller_writes (getEnvs two_envs) [] (addEnv example_host venv_a_again two_envs))
        (getEnvs (caller_writes (getEnvs two_envs) [] (addEnv example_host venv_a_again two_envs)))
       = envs (addEnv example_host venv_a_again two_envs)
   \<and> length (envs (addEnv example_host venv_a_again two_envs)) = 2
   \<and> toPythonEnvInfo example_host conda_foo = Some (the (toPythonEnvInfo example_host conda_foo))
   \<and> lookup (key (the (toPythonEnvInfo example_host conda_foo))) (envs two_envs) = None
   \<and> getEnvs (addEnv example_host conda_foo two_envs) = getEnvs two_envs
   \<and> store (addEnv example_host conda_foo two_envs) (getEnvs two_envs)
       = envs two_envs @ [the (toPythonEnvInfo example_host conda_foo)]"
  (is "?a \<and> ?b \<and> ?t1 \<and> ?l1 \<and> ?g1 \<and> ?s1 \<and> ?w1 \<and> ?n1 \<and> ?t2 \<and> ?l2 \<and> ?g2 \<and> ?s2")
proof -
  have tn: "toPythonEnvInfo example_host venv_a \<noteq> None" by code_simp
  have t1: ?t1 and l1: ?l1 and n1: ?n1 and t2: ?t2 and l2: ?l2 by code_simp+
  note i1 = getEnvs_returns_internal_array
              [of two_envs "getEnvs two_envs" "[]" example_host venv_a None Rejected
                  "[AddEnv venv_a, AddEnv venv_b]", folded two_envs_def]
  from i1 have a: ?a by blast
  from i1 tn have b: ?b by (auto split: option.splits)
  from i1 t1 l1 have g1: ?g1 and s1: ?s1 by blast+
  from i1 t2 l2 have g2: ?g2 and s2: ?s2 by blast+
  note i2 = getEnvs_returns_internal_array
              [of "addEnv example_host venv_a_again two_envs" "getEnvs two_envs" "[]"
                  example_host venv_a None Rejected "[]"]
  from i2 g1 have w1: ?w1 by blast
  from a b t1 l1 g1 s1 w1 n1 t2 l2 g2 s2 show ?thesis by blast
qed




end
